theory Spec2Isabelle
  imports Complex_Main
begin

section \<open>JavaScript numbers\<close>

text \<open>
  The trend-analysis code of the currency converter computes on TypeScript \<open>number\<close>s.
  A finite number is modelled by the real it denotes and arithmetic on finite numbers is
  exact: the rounding of each operation to a double and overflow to an infinity are left
  out of the functions of the first sections and are added in the section on double
  arithmetic, for the two claims that depend on them; the sign of zero is not modelled.
  The three special values are kept, with the arithmetic ECMAScript
  gives them, because the code produces them itself: \<open>0 / 0\<close> is \<open>NaN\<close>, a non-zero number
  divided by zero is an infinity, \<open>Math.min()\<close> is \<open>+Infinity\<close> and \<open>Math.max()\<close> is
  \<open>-Infinity\<close>.
\<close>

datatype number = Fin real | PInf | NInf | NaN

fun js_neg :: "number \<Rightarrow> number" where
  "js_neg (Fin a) = Fin (- a)"
| "js_neg PInf = NInf"
| "js_neg NInf = PInf"
| "js_neg NaN = NaN"

fun js_add :: "number \<Rightarrow> number \<Rightarrow> number" where
  "js_add NaN b = NaN"
| "js_add a NaN = NaN"
| "js_add (Fin a) (Fin b) = Fin (a + b)"
| "js_add (Fin a) PInf = PInf"
| "js_add (Fin a) NInf = NInf"
| "js_add PInf (Fin b) = PInf"
| "js_add NInf (Fin b) = NInf"
| "js_add PInf PInf = PInf"
| "js_add NInf NInf = NInf"
| "js_add PInf NInf = NaN"
| "js_add NInf PInf = NaN"

definition js_sub :: "number \<Rightarrow> number \<Rightarrow> number" where
  "js_sub a b = js_add a (js_neg b)"

text \<open>The sign of an infinite product or quotient: \<open>True\<close> is positive.\<close>

definition js_inf :: "bool \<Rightarrow> number" where
  "js_inf positive = (if positive then PInf else NInf)"

fun js_mul :: "number \<Rightarrow> number \<Rightarrow> number" where
  "js_mul NaN b = NaN"
| "js_mul a NaN = NaN"
| "js_mul (Fin a) (Fin b) = Fin (a * b)"
| "js_mul (Fin a) PInf = (if a = 0 then NaN else js_inf (0 < a))"
| "js_mul (Fin a) NInf = (if a = 0 then NaN else js_inf (a < 0))"
| "js_mul PInf (Fin b) = (if b = 0 then NaN else js_inf (0 < b))"
| "js_mul NInf (Fin b) = (if b = 0 then NaN else js_inf (b < 0))"
| "js_mul PInf PInf = PInf"
| "js_mul NInf NInf = PInf"
| "js_mul PInf NInf = NInf"
| "js_mul NInf PInf = NInf"

text \<open>
  Division: a zero divisor is taken as \<open>+0\<close>, the sign of zero not being modelled.
\<close>

fun js_div :: "number \<Rightarrow> number \<Rightarrow> number" where
  "js_div NaN b = NaN"
| "js_div a NaN = NaN"
| "js_div (Fin a) (Fin b) =
     (if b = 0 then (if a = 0 then NaN else js_inf (0 < a)) else Fin (a / b))"
| "js_div (Fin a) PInf = Fin 0"
| "js_div (Fin a) NInf = Fin 0"
| "js_div PInf (Fin b) = js_inf (0 \<le> b)"
| "js_div NInf (Fin b) = js_inf (b < 0)"
| "js_div PInf PInf = NaN"
| "js_div NInf NInf = NaN"
| "js_div PInf NInf = NaN"
| "js_div NInf PInf = NaN"

text \<open>The comparisons \<open><\<close> and \<open>>\<close>: false as soon as one side is \<open>NaN\<close>.\<close>

fun js_lt :: "number \<Rightarrow> number \<Rightarrow> bool" where
  "js_lt NaN b = False"
| "js_lt a NaN = False"
| "js_lt (Fin a) (Fin b) = (a < b)"
| "js_lt a NInf = False"
| "js_lt PInf b = False"
| "js_lt NInf b = True"
| "js_lt a PInf = True"

definition js_gt :: "number \<Rightarrow> number \<Rightarrow> bool" where
  "js_gt a b = js_lt b a"

text \<open>
  \<open>Math.min(...xs)\<close> and \<open>Math.max(...xs)\<close>: the running extreme starts at \<open>+Infinity\<close>
  (\<open>-Infinity\<close>), and a \<open>NaN\<close> argument makes the result \<open>NaN\<close>.
\<close>

fun Math_min2 :: "number \<Rightarrow> number \<Rightarrow> number" where
  "Math_min2 NaN b = NaN"
| "Math_min2 a NaN = NaN"
| "Math_min2 a b = (if js_lt b a then b else a)"

fun Math_max2 :: "number \<Rightarrow> number \<Rightarrow> number" where
  "Math_max2 NaN b = NaN"
| "Math_max2 a NaN = NaN"
| "Math_max2 a b = (if js_lt a b then b else a)"

definition Math_min :: "number list \<Rightarrow> number" where
  "Math_min xs = foldl Math_min2 PInf xs"

definition Math_max :: "number list \<Rightarrow> number" where
  "Math_max xs = foldl Math_max2 NInf xs"

text \<open>\<open>Math.pow(x, k)\<close> for a natural exponent; \<open>Math.pow(x, 0)\<close> is \<open>1\<close> also for \<open>NaN\<close>.\<close>

fun Math_pow :: "number \<Rightarrow> nat \<Rightarrow> number" where
  "Math_pow x 0 = Fin 1"
| "Math_pow x (Suc k) = js_mul x (Math_pow x k)"

text \<open>
  \<open>xs[i]\<close> used as an operand of arithmetic: outside the array the read is \<open>undefined\<close>,
  which arithmetic converts to \<open>NaN\<close>.
\<close>

definition js_at :: "number list \<Rightarrow> int \<Rightarrow> number" where
  "js_at xs i = (if 0 \<le> i \<and> i < int (length xs) then xs ! nat i else NaN)"

text \<open>
  \<open>parseFloat(x.toFixed(d))\<close>: \<open>toFixed\<close> picks the integer \<open>n\<close> with \<open>n / 10^d\<close> nearest to
  \<open>|x|\<close>, the larger one on a tie, and keeps the sign; from \<open>10^21\<close> on it prints the number
  itself, and it prints the special values by name, which \<open>parseFloat\<close> reads back.
\<close>

fun parseFloat_toFixed :: "nat \<Rightarrow> number \<Rightarrow> number" where
  "parseFloat_toFixed d (Fin x) =
     (if 10 ^ 21 \<le> \<bar>x\<bar> then Fin x
      else Fin (sgn x * of_int \<lfloor>\<bar>x\<bar> * 10 ^ d + 1 / 2\<rfloor> / 10 ^ d))"
| "parseFloat_toFixed d PInf = PInf"
| "parseFloat_toFixed d NInf = NInf"
| "parseFloat_toFixed d NaN = NaN"

section \<open>Linear regression\<close>

text \<open>
  \<open>linearRegression\<close> of \<open>client/src/lib/trendAnalysis.ts\<close>; \<open>server/routes.ts\<close> holds a
  copy with the same body. The array \<open>x\<close> is \<open>[0, 1, ..., n - 1]\<close>; every \<open>reduce\<close> is a
  left fold from \<open>0\<close>, the one for \<open>sumXY\<close> also receiving the index.
\<close>

record regression =
  slope :: number
  intercept :: number

definition linearRegression :: "number list \<Rightarrow> regression" where
  "linearRegression rates =
     (let x = map (\<lambda>i. Fin (real i)) [0..<length rates];
          n = Fin (real (length rates));
          sumX = foldl (\<lambda>sum val. js_add sum val) (Fin 0) x;
          sumY = foldl (\<lambda>sum val. js_add sum val) (Fin 0) rates;
          sumXY = foldl (\<lambda>sum (val, i). js_add sum (js_mul val (rates ! i))) (Fin 0)
                    (zip x [0..<length x]);
          sumXX = foldl (\<lambda>sum val. js_add sum (js_mul val val)) (Fin 0) x;
          slope = js_div (js_sub (js_mul n sumXY) (js_mul sumX sumY))
                         (js_sub (js_mul n sumXX) (js_mul sumX sumX));
          intercept = js_div (js_sub sumY (js_mul slope sumX)) n
      in \<lparr>slope = slope, intercept = intercept\<rparr>)"

text \<open>
  The least-squares line of the points \<open>(i, ys ! i)\<close>, as the specification writes it.
\<close>

definition sum_x :: "real list \<Rightarrow> real" where
  "sum_x ys = (\<Sum>i = 0..<length ys. real i)"

definition sum_y :: "real list \<Rightarrow> real" where
  "sum_y ys = (\<Sum>i = 0..<length ys. ys ! i)"

definition sum_xy :: "real list \<Rightarrow> real" where
  "sum_xy ys = (\<Sum>i = 0..<length ys. real i * ys ! i)"

definition sum_xx :: "real list \<Rightarrow> real" where
  "sum_xx ys = (\<Sum>i = 0..<length ys. real i * real i)"

definition ols_slope :: "real list \<Rightarrow> real" where
  "ols_slope ys =
     (real (length ys) * sum_xy ys - sum_x ys * sum_y ys)
       / (real (length ys) * sum_xx ys - (sum_x ys)\<^sup>2)"

definition ols_intercept :: "real list \<Rightarrow> real" where
  "ols_intercept ys = (sum_y ys - ols_slope ys * sum_x ys) / real (length ys)"

section \<open>Forecast\<close>

text \<open>
  \<open>generateForecast\<close> (the same body in \<open>trendAnalysis.ts\<close> and in both versions of
  \<open>routes.ts\<close>). \<open>Array.from({ length: days }, f)\<close> calls \<open>f\<close> for \<open>i = 0, ..., days - 1\<close> in
  order, and not at all for \<open>days \<le> 0\<close>. Each call draws \<open>Math.random()\<close> once: the draws
  are an input, \<open>rnd i\<close> being the draw of the call for index \<open>i\<close>, a number in \<open>[0, 1)\<close>.
\<close>

definition generateForecast :: "number list \<Rightarrow> int \<Rightarrow> (nat \<Rightarrow> real) \<Rightarrow> number list" where
  "generateForecast rates days rnd =
     (let fit = linearRegression rates;
          lastX = Fin (real (length rates) - 1)
      in map (\<lambda>i.
            let x = js_add (js_add lastX (Fin (real i))) (Fin 1);
                predictedValue = js_add (js_mul (slope fit) x) (intercept fit);
                noise = js_mul (js_sub (Fin (rnd i)) (Fin (5 / 10))) (Fin (2 / 1000))
            in js_add predictedValue noise)
          [0..<nat days])"

text \<open>
  The \<open>/api/forecast\<close> handlers date the points: point \<open>i\<close> gets \<open>today\<close> moved on by
  \<open>i + 1\<close> days. A date is modelled by its distance from \<open>today\<close> in days.
\<close>

record forecast_point =
  date :: int
  rate :: number

definition forecast_response :: "number list \<Rightarrow> forecast_point list" where
  "forecast_response forecastRates =
     map (\<lambda>(rate, i). \<lparr>date = int i + 1, rate = rate\<rparr>)
         (zip forecastRates [0..<length forecastRates])"

section \<open>Statistics\<close>

text \<open>\<open>calculateStatistics\<close> of \<open>trendAnalysis.ts\<close>.\<close>

record statistics =
  average :: number
  min_rate :: number
  max_rate :: number
  volatility :: number

definition calculateStatistics :: "number list \<Rightarrow> statistics" where
  "calculateStatistics rates =
     (let min = Math_min rates;
          max = Math_max rates;
          average = js_div (foldl (\<lambda>sum rate. js_add sum rate) (Fin 0) rates)
                           (Fin (real (length rates)));
          volatility = js_mul (js_div (js_sub max min) average) (Fin 100)
      in \<lparr>average = average, min_rate = min, max_rate = max, volatility = volatility\<rparr>)"

text \<open>
  The statistics of the \<open>/api/historical\<close> handlers of \<open>routes.ts\<close>: the same sums, the
  volatility sent as \<open>parseFloat(volatility.toFixed(2))\<close>.
\<close>

definition historical_statistics :: "number list \<Rightarrow> statistics" where
  "historical_statistics rateValues =
     (let avg = js_div (foldl (\<lambda>a b. js_add a b) (Fin 0) rateValues)
                       (Fin (real (length rateValues)));
          min = Math_min rateValues;
          max = Math_max rateValues;
          volatility = js_mul (js_div (js_sub max min) avg) (Fin 100)
      in \<lparr>average = avg, min_rate = min, max_rate = max,
          volatility = parseFloat_toFixed 2 volatility\<rparr>)"

section \<open>Confidence\<close>

text \<open>\<open>calculateConfidence\<close> of \<open>trendAnalysis.ts\<close>.\<close>

definition calculateConfidence :: "number list \<Rightarrow> number" where
  "calculateConfidence rates =
     (let fit = linearRegression rates;
          x = map (\<lambda>i. Fin (real i)) [0..<length rates];
          predictions = map (\<lambda>x. js_add (js_mul (slope fit) x) (intercept fit)) x;
          yMean = js_div (foldl (\<lambda>sum y. js_add sum y) (Fin 0) rates)
                         (Fin (real (length rates)));
          ssTotal = foldl (\<lambda>sum y. js_add sum (Math_pow (js_sub y yMean) 2)) (Fin 0) rates;
          ssResidual = foldl (\<lambda>sum (y, i). js_add sum (Math_pow (js_sub y (predictions ! i)) 2))
                         (Fin 0) (zip rates [0..<length rates]);
          rSquared = js_sub (Fin 1) (js_div ssResidual ssTotal)
      in Math_min [Fin 95, Math_max [Fin 50, js_mul rSquared (Fin 100)]])"

section \<open>Trend\<close>

datatype direction_kind = Up | Down | Stable

record trend =
  direction :: direction_kind
  percentChange :: number

text \<open>\<open>analyzeTrend\<close> of \<open>trendAnalysis.ts\<close>.\<close>

definition analyzeTrend :: "number list \<Rightarrow> trend" where
  "analyzeTrend rates =
     (let fit = linearRegression rates;
          firstRate = js_at rates 0;
          lastRate = js_at rates (int (length rates) - 1);
          percentChange = js_mul (js_div (js_sub lastRate firstRate) firstRate) (Fin 100);
          direction = (if js_gt (slope fit) (Fin (1 / 10000)) then Up
                       else if js_lt (slope fit) (Fin (- (1 / 10000))) then Down
                       else Stable)
      in \<lparr>direction = direction, percentChange = percentChange\<rparr>)"

text \<open>
  The trend analysis of the \<open>/api/forecast\<close> handler that serves simulated rates (the
  version of \<open>routes.ts\<close> with hard-coded base rates): it reads the forecast it has just
  generated, classifies the unrounded percentage and sends the percentage rounded to two
  decimals. The other fields of its analysis (a random confidence, the expected high and
  low taken from the base rate) do not enter the trend and are left out.
\<close>

definition forecast_trend :: "number list \<Rightarrow> trend" where
  "forecast_trend forecastRates =
     (let startRate = js_at forecastRates 0;
          endRate = js_at forecastRates (int (length forecastRates) - 1);
          percentChange = js_mul (js_div (js_sub endRate startRate) startRate) (Fin 100);
          direction = (if js_gt percentChange (Fin (5 / 10)) then Up
                       else if js_lt percentChange (Fin (- (5 / 10))) then Down
                       else Stable)
      in \<lparr>direction = direction, percentChange = percentChange\<rparr>)"

definition forecast_analysis :: "number list \<Rightarrow> trend" where
  "forecast_analysis forecastRates =
     (let t = forecast_trend forecastRates
      in \<lparr>direction = direction t, percentChange = parseFloat_toFixed 2 (percentChange t)\<rparr>)"

text \<open>
  The handler's historical series: ninety simulated rates around \<open>baseRate\<close>, each
  \<open>baseRate + (Math.random() - 0.5) * 0.06 * baseRate\<close>, then the forecast from its own
  draws.
\<close>

definition simulated_history :: "real \<Rightarrow> (nat \<Rightarrow> real) \<Rightarrow> number list" where
  "simulated_history baseRate rnd =
     map (\<lambda>i. let variation = js_mul (js_mul (js_sub (Fin (rnd i)) (Fin (5 / 10))) (Fin (6 / 100)))
                                       (Fin baseRate)
               in js_add (Fin baseRate) variation)
         [0..<90]"

definition forecast_endpoint :: "real \<Rightarrow> int \<Rightarrow> (nat \<Rightarrow> real) \<Rightarrow> (nat \<Rightarrow> real) \<Rightarrow> trend" where
  "forecast_endpoint baseRate days rnd_history rnd_forecast =
     forecast_analysis (generateForecast (simulated_history baseRate rnd_history) days rnd_forecast)"

section \<open>Calls as results\<close>

text \<open>
  None of the functions above has a \<open>throw\<close>, and the library functions they call do not
  throw on arrays of numbers: a call returns a value. The specification's operations
  \<open>fit\<close>, \<open>forecast\<close> and \<open>summarize\<close> are these calls, with the error the specification
  names as the only possible failure.
\<close>

datatype error = InvalidInput

definition fit :: "number list \<Rightarrow> error + regression" where
  "fit series = Inr (linearRegression series)"

definition forecast :: "number list \<Rightarrow> int \<Rightarrow> (nat \<Rightarrow> real) \<Rightarrow> error + number list" where
  "forecast series horizonDays rnd = Inr (generateForecast series horizonDays rnd)"

definition summarize :: "number list \<Rightarrow> error + statistics" where
  "summarize series = Inr (calculateStatistics series)"

section \<open>Reference values\<close>

text \<open>
  The arithmetic mean of a series and of its indices, and the volatility of the
  specification, \<open>(max - min) / average * 100\<close>, over the reals.
\<close>

definition mean :: "real list \<Rightarrow> real" where
  "mean ys = sum_list ys / real (length ys)"

definition mean_index :: "real list \<Rightarrow> real" where
  "mean_index ys = sum_x ys / real (length ys)"

definition volatility_percent :: "real list \<Rightarrow> real" where
  "volatility_percent ys = (Max (set ys) - Min (set ys)) / mean ys * 100"

text \<open>
  Point \<open>i\<close> of a forecast from a finite series: the fitted line continued past the last
  index, plus the noise of draw \<open>i\<close>. The percentage change from \<open>a\<close> to \<open>b\<close>. The simulated
  history over the reals.
\<close>

definition noisy_point :: "real list \<Rightarrow> (nat \<Rightarrow> real) \<Rightarrow> nat \<Rightarrow> real" where
  "noisy_point ys rnd i =
     ols_slope ys * ((real (length ys) - 1) + real i + 1) + ols_intercept ys
       + (rnd i - 1 / 2) * (2 / 1000)"

definition percent_change :: "real \<Rightarrow> real \<Rightarrow> real" where
  "percent_change a b = (b - a) / a * 100"

definition simulated_rates :: "real \<Rightarrow> (nat \<Rightarrow> real) \<Rightarrow> real list" where
  "simulated_rates baseRate rnd =
     map (\<lambda>i. baseRate + (rnd i - 1 / 2) * (6 / 100) * baseRate) [0..<90]"

text \<open>
  Two sequences of draws: every draw \<open>0.5\<close>, which makes the noise zero, and a first draw
  of \<open>0\<close> followed by draws of \<open>0.999\<close>.
\<close>

definition middle_draws :: "nat \<Rightarrow> real" where
  "middle_draws i = 1 / 2"

definition low_high_draws :: "nat \<Rightarrow> real" where
  "low_high_draws i = (if i = 0 then 0 else 999 / 1000)"

section \<open>Double arithmetic\<close>

text \<open>
  The code computes in IEEE-754 doubles: every \<open>+\<close>, \<open>-\<close>, \<open>*\<close> and \<open>/\<close> yields the double
  nearest to the exact result, a tie going to the even significand. For the claims whose
  truth depends on this rounding the functions are given a second time, below, with the
  rounding of each operation as a parameter.

  \<open>pow2 e\<close> is \<open>2\<^sup>e\<close>. \<open>binade k x\<close> is the exponent \<open>e\<close> with \<open>2\<^sup>e \<le> x < 2\<^sup>e\<^sup>+\<^sup>1\<close> of a positive
  \<open>x\<close>, found in at most \<open>k\<close> halvings or doublings (1100 of them cover every exponent of a
  double). \<open>round_even\<close> rounds to the nearest integer, a tie to the even one.
\<close>

definition pow2 :: "int \<Rightarrow> real" where
  "pow2 e = (if 0 \<le> e then 2 ^ nat e else 1 / 2 ^ nat (- e))"

fun binade :: "nat \<Rightarrow> real \<Rightarrow> int" where
  "binade 0 x = 0"
| "binade (Suc k) x =
     (if 2 \<le> x then binade k (x / 2) + 1
      else if x < 1 then binade k (x * 2) - 1
      else 0)"

definition round_even :: "real \<Rightarrow> int" where
  "round_even x =
     (let f = \<lfloor>x\<rfloor>; r = x - of_int f
      in if r < 1 / 2 then f
         else if 1 / 2 < r then f + 1
         else if even f then f else f + 1)"

text \<open>
  \<open>round_double x\<close> is the double nearest to \<open>x\<close>: the significand has 53 bits, so the
  spacing of the doubles around \<open>x\<close> is \<open>2\<^sup>e\<^sup>-\<^sup>5\<^sup>2\<close>; below \<open>2\<^sup>-\<^sup>1\<^sup>0\<^sup>2\<^sup>2\<close> (the subnormal range) the
  spacing stays \<open>2\<^sup>-\<^sup>1\<^sup>0\<^sup>7\<^sup>4\<close>; a result that rounds to \<open>2\<^sup>1\<^sup>0\<^sup>2\<^sup>4\<close> or more is an infinity.
  \<open>dbl\<close> rounds a number and leaves the special values as they are.
\<close>

definition round_double :: "real \<Rightarrow> number" where
  "round_double x =
     (if x = 0 then Fin 0
      else let e = max (binade 1100 \<bar>x\<bar>) (- 1022);
               q = pow2 (e - 52);
               y = of_int (round_even (\<bar>x\<bar> / q)) * q
           in if 2 ^ 1024 \<le> y then js_inf (0 < x) else Fin (sgn x * y))"

fun dbl :: "number \<Rightarrow> number" where
  "dbl (Fin x) = round_double x"
| "dbl PInf = PInf"
| "dbl NInf = NInf"
| "dbl NaN = NaN"

text \<open>
  \<open>linearRegression\<close> and \<open>calculateStatistics\<close> once more, every arithmetic operation
  followed by the rounding \<open>r\<close>: with \<open>r = dbl\<close> this is the computation in doubles, with
  the identity it is the exact one above. \<open>Math.min\<close> and \<open>Math.max\<close> return one of
  their arguments and round nothing; the indices and the length are integers, which are
  doubles. \<open>sumX_rounded\<close> and \<open>sumY_rounded\<close> are the two sums of the fit.
\<close>

definition sumX_rounded :: "(number \<Rightarrow> number) \<Rightarrow> number list \<Rightarrow> number" where
  "sumX_rounded r rates =
     foldl (\<lambda>sum val. r (js_add sum val)) (Fin 0) (map (\<lambda>i. Fin (real i)) [0..<length rates])"

definition sumY_rounded :: "(number \<Rightarrow> number) \<Rightarrow> number list \<Rightarrow> number" where
  "sumY_rounded r rates = foldl (\<lambda>sum val. r (js_add sum val)) (Fin 0) rates"

definition linearRegression_rounded :: "(number \<Rightarrow> number) \<Rightarrow> number list \<Rightarrow> regression" where
  "linearRegression_rounded r rates =
     (let x = map (\<lambda>i. Fin (real i)) [0..<length rates];
          n = Fin (real (length rates));
          sumX = foldl (\<lambda>sum val. r (js_add sum val)) (Fin 0) x;
          sumY = foldl (\<lambda>sum val. r (js_add sum val)) (Fin 0) rates;
          sumXY = foldl (\<lambda>sum (val, i). r (js_add sum (r (js_mul val (rates ! i))))) (Fin 0)
                    (zip x [0..<length x]);
          sumXX = foldl (\<lambda>sum val. r (js_add sum (r (js_mul val val)))) (Fin 0) x;
          slope = r (js_div (r (js_sub (r (js_mul n sumXY)) (r (js_mul sumX sumY))))
                            (r (js_sub (r (js_mul n sumXX)) (r (js_mul sumX sumX)))));
          intercept = r (js_div (r (js_sub sumY (r (js_mul slope sumX)))) n)
      in \<lparr>slope = slope, intercept = intercept\<rparr>)"


text \<open>
  The unit roundoff \<open>2\<^sup>-\<^sup>5\<^sup>3\<close> and the least normal double \<open>2\<^sup>-\<^sup>1\<^sup>0\<^sup>2\<^sup>2\<close>; the distance within
  which a finite double average stays of the exact mean, and within which the residuals
  of a double fit with slope \<open>s\<close> sum to zero.
\<close>

definition unit_roundoff :: real where
  "unit_roundoff = 1 / 2 ^ 53"

definition min_normal :: real where
  "min_normal = 1 / 2 ^ 1022"


definition residual_slack :: "real \<Rightarrow> real list \<Rightarrow> real" where
  "residual_slack s ys =
     ((1 + unit_roundoff) ^ (length ys + 3) - 1)
       * (sum_list (map abs ys) + \<bar>s\<bar> * sum_x ys + (1 + \<bar>s\<bar>) * min_normal)
     + real (length ys) * unit_roundoff * min_normal"


text \<open>
  The double that the literal \<open>0.1\<close> denotes, \<open>3602879701896397 / 2\<^sup>5\<^sup>5\<close>, and the next
  double above it, which prints as \<open>0.10000000000000002\<close>.
\<close>

definition tenth :: real where
  "tenth = 3602879701896397 / 36028797018963968"

definition tenth_up :: real where
  "tenth_up = 3602879701896397 / 36028797018963968 + 1 / 72057594037927936"

section \<open>Folds over finite numbers\<close>

lemma foldl_add_Fin:
  "(\<And>v. v \<in> set vs \<Longrightarrow> g v = Fin (h v)) \<Longrightarrow>
   foldl (\<lambda>sum val. js_add sum (g val)) (Fin a) vs = Fin (a + sum_list (map h vs))"
  by (induction vs arbitrary: a) (simp_all add: add.assoc)

lemma sum_list_upt: "sum_list (map f [0..<n]) = (\<Sum>i = 0..<n. f i)"
  by (simp add: interv_sum_list_conv_sum_set_nat)

lemma sumX_Fin:
  "foldl (\<lambda>sum val. js_add sum val) (Fin 0) (map (\<lambda>i. Fin (real i)) [0..<length ys])
     = Fin (sum_x ys)"
proof -
  have "foldl (\<lambda>sum val. js_add sum ((\<lambda>i. Fin (real i)) val)) (Fin 0) [0..<length ys]
          = Fin (0 + sum_list (map real [0..<length ys]))"
    by (rule foldl_add_Fin) simp
  then show ?thesis
    by (simp add: foldl_map sum_x_def sum_list_upt)
qed

lemma sumY_Fin:
  "foldl (\<lambda>sum val. js_add sum val) (Fin 0) (map Fin ys) = Fin (sum_y ys)"
proof -
  have "foldl (\<lambda>sum val. js_add sum (Fin val)) (Fin 0) ys = Fin (0 + sum_list (map (\<lambda>v. v) ys))"
    by (rule foldl_add_Fin) simp
  moreover have "sum_list ys = (\<Sum>i = 0..<length ys. ys ! i)"
    by (simp add: sum_list_sum_nth)
  ultimately show ?thesis
    by (simp add: foldl_map sum_y_def)
qed

lemma sumXX_Fin:
  "foldl (\<lambda>sum val. js_add sum (js_mul val val)) (Fin 0)
         (map (\<lambda>i. Fin (real i)) [0..<length ys])
     = Fin (sum_xx ys)"
proof -
  have "foldl (\<lambda>sum val. js_add sum ((\<lambda>i. js_mul (Fin (real i)) (Fin (real i))) val)) (Fin 0)
              [0..<length ys]
          = Fin (0 + sum_list (map (\<lambda>i. real i * real i) [0..<length ys]))"
    by (rule foldl_add_Fin) simp
  then show ?thesis
    by (simp add: foldl_map sum_xx_def sum_list_upt)
qed

lemma zip_map_upt: "zip (map f [0..<n]) [0..<n] = map (\<lambda>i. (f i, i)) [0..<n]"
  by (simp add: zip_map1 zip_same_conv_map)

lemma sumXY_Fin:
  "foldl (\<lambda>sum (val, i). js_add sum (js_mul val (map Fin ys ! i))) (Fin 0)
         (zip (map (\<lambda>i. Fin (real i)) [0..<length ys]) [0..<length ys])
     = Fin (sum_xy ys)"
proof -
  have "foldl (\<lambda>sum val. js_add sum ((\<lambda>i. js_mul (Fin (real i)) (map Fin ys ! i)) val)) (Fin 0)
              [0..<length ys]
          = Fin (0 + sum_list (map (\<lambda>i. real i * ys ! i) [0..<length ys]))"
    by (rule foldl_add_Fin) simp
  then show ?thesis
    by (simp add: zip_map_upt foldl_map sum_xy_def sum_list_upt)
qed

section \<open>The fitted line\<close>

lemma sum_nat_closed: "(\<Sum>i = 0..<n. real i) = real n * (real n - 1) / 2"
  by (induction n) (simp_all add: field_simps)

lemma sum_sq_closed:
  "(\<Sum>i = 0..<n. real i * real i) = (real n - 1) * real n * (2 * real n - 1) / 6"
  by (induction n) (simp_all add: field_simps)

lemma ols_denominator:
  "real (length ys) * sum_xx ys - (sum_x ys)\<^sup>2
     = (real (length ys))\<^sup>2 * ((real (length ys))\<^sup>2 - 1) / 12"
  unfolding sum_xx_def sum_x_def sum_nat_closed sum_sq_closed
  by (simp add: power2_eq_square field_simps)

lemma ols_denominator_pos:
  assumes "2 \<le> length ys"
  shows "0 < real (length ys) * sum_xx ys - (sum_x ys)\<^sup>2"
proof -
  have n: "2 \<le> real (length ys)" using assms by simp
  then have "1 < (real (length ys))\<^sup>2"
    by (smt (verit) one_less_power pos2)
  moreover have "0 < (real (length ys))\<^sup>2" using assms by auto
  ultimately show ?thesis
    unfolding ols_denominator by simp
qed

lemma linearRegression_Fin:
  "linearRegression (map Fin ys) =
     (let n = real (length ys);
          d = n * sum_xx ys - sum_x ys * sum_x ys;
          slope = js_div (Fin (n * sum_xy ys - sum_x ys * sum_y ys)) (Fin d)
      in \<lparr>slope = slope,
          intercept = js_div (js_sub (Fin (sum_y ys)) (js_mul slope (Fin (sum_x ys)))) (Fin n)\<rparr>)"
  using sumX_Fin[of ys] sumY_Fin[of ys] sumXY_Fin[of ys] sumXX_Fin[of ys]
  by (simp add: linearRegression_def Let_def js_sub_def)

lemma linearRegression_finite:
  assumes "2 \<le> length ys"
  shows "linearRegression (map Fin ys)
           = \<lparr>slope = Fin (ols_slope ys), intercept = Fin (ols_intercept ys)\<rparr>"
proof -
  have d: "real (length ys) * sum_xx ys - sum_x ys * sum_x ys \<noteq> 0"
    using ols_denominator_pos[OF assms] by (simp add: power2_eq_square)
  have n: "real (length ys) \<noteq> 0" using assms by auto
  show ?thesis
    using d n
    by (simp add: linearRegression_Fin Let_def js_sub_def ols_slope_def ols_intercept_def
        power2_eq_square)
qed

text \<open>
  Claim C1. For a series of \<open>n \<ge> 2\<close> finite rates, \<open>linearRegression\<close> returns the slope
  \<open>(n \<Sigma>xy - \<Sigma>x \<Sigma>y) / (n \<Sigma>x\<^sup>2 - (\<Sigma>x)\<^sup>2)\<close> and the intercept \<open>(\<Sigma>y - slope \<Sigma>x) / n\<close>, the sums
  ranging over the indices \<open>0, ..., n - 1\<close> and the values at them; the divisor of the slope
  is not zero, so both are finite numbers.
\<close>

theorem linearRegression_least_squares:
  assumes "2 \<le> length ys"
  shows "linearRegression (map Fin ys)
           = \<lparr>slope = Fin ((real (length ys) * sum_xy ys - sum_x ys * sum_y ys)
                             / (real (length ys) * sum_xx ys - (sum_x ys)\<^sup>2)),
              intercept = Fin ((sum_y ys - ols_slope ys * sum_x ys) / real (length ys))\<rparr>
         \<and> real (length ys) * sum_xx ys - (sum_x ys)\<^sup>2 \<noteq> 0"
  using linearRegression_finite[OF assms] ols_denominator_pos[OF assms]
  by (simp add: ols_slope_def ols_intercept_def)

theorem linearRegression_least_squares_witness:
  "2 \<le> length [1, 3 :: real]
   \<and> linearRegression (map Fin [1, 3]) = \<lparr>slope = Fin 2, intercept = Fin 1\<rparr>"
  using linearRegression_least_squares[of "[1, 3]"]
  by (simp add: ols_slope_def sum_x_def sum_y_def sum_xy_def sum_xx_def)

section \<open>The forecast\<close>

lemma noise_bound:
  assumes "0 \<le> r" and "r < 1"
  shows "\<bar>(r - 1 / 2) * (2 / 1000)\<bar> \<le> 1 / (1000 :: real)"
proof -
  have "(r - 1 / 2) * (2 / 1000) \<le> 1 / 1000" using assms by simp
  moreover have "- ((r - 1 / 2) * (2 / 1000)) \<le> 1 / 1000" using assms by simp
  ultimately show ?thesis by (simp only: abs_le_iff)
qed

lemma generateForecast_nth_raw:
  assumes "i < nat days"
  shows "generateForecast rates days rnd ! i
           = js_add (js_add (js_mul (slope (linearRegression rates))
                                    (js_add (js_add (Fin (real (length rates) - 1)) (Fin (real i))) (Fin 1)))
                            (intercept (linearRegression rates)))
                    (js_mul (js_sub (Fin (rnd i)) (Fin (5 / 10))) (Fin (2 / 1000)))"
  using assms unfolding generateForecast_def Let_def
  by (simp only: nth_map length_upt diff_zero nth_upt add_0)


lemma generateForecast_nth:
  assumes "2 \<le> length ys" and "i < nat days"
  shows "generateForecast (map Fin ys) days rnd ! i
           = Fin (ols_slope ys * ((real (length ys) - 1) + real i + 1) + ols_intercept ys
                  + (rnd i - 1 / 2) * (2 / 1000))"
  by (simp add: generateForecast_nth_raw[OF assms(2)] linearRegression_finite[OF assms(1)]
        js_sub_def)


lemma map_date_forecast_response:
  "map date (forecast_response fs) = map (\<lambda>i. int i + 1) [0..<length fs]"
proof -
  have "map date (forecast_response fs)
          = map ((\<lambda>i. int i + 1) \<circ> snd) (zip fs [0..<length fs])"
    by (simp add: forecast_response_def case_prod_beta comp_def)
  also have "\<dots> = map (\<lambda>i. int i + 1) (map snd (zip fs [0..<length fs]))"
    by (simp only: map_map)
  also have "map snd (zip fs [0..<length fs]) = [0..<length fs]"
    by simp
  finally show ?thesis .
qed

lemma map_succ_upt: "map (\<lambda>i. int i + 1) [0..<n] = [1..int n]"
proof (induction n)
  case 0
  show ?case by simp
next
  case (Suc n)
  have "[1..int (Suc n)] = [1..int n] @ [int n + 1]"
    using upto_rec2[of 1 "int n + 1"] by (simp add: add.commute)
  with Suc show ?case by simp
qed

lemma length_generateForecast: "length (generateForecast rates days rnd) = nat days"
  by (simp add: generateForecast_def Let_def)

lemma forecast_dates:
  assumes "0 \<le> days"
  shows "map date (forecast_response (generateForecast rates days rnd)) = [1..days]"
  using assms by (simp add: map_date_forecast_response map_succ_upt length_generateForecast)

text \<open>
  Claim C2. For a series of \<open>n \<ge> 2\<close> finite rates, a horizon \<open>days \<ge> 1\<close> and draws in
  \<open>[0, 1)\<close>, the forecast is returned, it has exactly \<open>days\<close> points, the handlers date
  them \<open>1, 2, ..., days\<close> (strictly increasing), and point \<open>i\<close> is
  \<open>slope * ((n - 1) + i + 1) + intercept\<close> plus the noise \<open>(rnd i - 0.5) * 0.002\<close> of its own
  draw, which lies in \<open>[-0.001, 0.001]\<close>; slope and intercept are the fit of the whole series.
\<close>

theorem generateForecast_points:
  assumes "2 \<le> length ys" and "1 \<le> days" and "\<forall>i < nat days. 0 \<le> rnd i \<and> rnd i < 1"
  shows "forecast (map Fin ys) days rnd = Inr (generateForecast (map Fin ys) days rnd)
         \<and> length (generateForecast (map Fin ys) days rnd) = nat days
         \<and> map date (forecast_response (generateForecast (map Fin ys) days rnd)) = [1..days]
         \<and> sorted_wrt (<) (map date (forecast_response (generateForecast (map Fin ys) days rnd)))
         \<and> (\<forall>i < nat days.
               generateForecast (map Fin ys) days rnd ! i
                 = Fin (ols_slope ys * ((real (length ys) - 1) + real i + 1) + ols_intercept ys
                        + (rnd i - 1 / 2) * (2 / 1000))
               \<and> \<bar>(rnd i - 1 / 2) * (2 / 1000)\<bar> \<le> 1 / 1000)
         \<and> linearRegression (map Fin ys)
             = \<lparr>slope = Fin (ols_slope ys), intercept = Fin (ols_intercept ys)\<rparr>"
proof -
  let ?f = "generateForecast (map Fin ys) days rnd"
  have dates: "map date (forecast_response ?f) = [1..days]"
    using assms(2) by (simp add: forecast_dates)
  have sorted: "sorted_wrt (<) (map date (forecast_response ?f))"
    unfolding dates by (rule sorted_wrt_upto)
  have points: "\<forall>i < nat days.
      ?f ! i = Fin (ols_slope ys * ((real (length ys) - 1) + real i + 1) + ols_intercept ys
                    + (rnd i - 1 / 2) * (2 / 1000))
      \<and> \<bar>(rnd i - 1 / 2) * (2 / 1000)\<bar> \<le> 1 / 1000"
  proof (intro allI impI conjI)
    fix i assume i: "i < nat days"
    show "?f ! i = Fin (ols_slope ys * ((real (length ys) - 1) + real i + 1) + ols_intercept ys
                    + (rnd i - 1 / 2) * (2 / 1000))"
      by (rule generateForecast_nth[OF assms(1) i])
    show "\<bar>(rnd i - 1 / 2) * (2 / 1000)\<bar> \<le> 1 / 1000"
      using assms(3) i by (intro noise_bound) auto
  qed
  have fit: "linearRegression (map Fin ys)
             = \<lparr>slope = Fin (ols_slope ys), intercept = Fin (ols_intercept ys)\<rparr>"
    by (rule linearRegression_finite[OF assms(1)])
  have len: "length ?f = nat days" by (rule length_generateForecast)
  have call: "forecast (map Fin ys) days rnd = Inr ?f" by (simp add: forecast_def)
  from call len dates sorted points fit show ?thesis by (intro conjI)
qed

theorem generateForecast_points_witness:
  "2 \<le> length [1, 3 :: real] \<and> (1::int) \<le> 2
   \<and> generateForecast (map Fin [1, 3]) 2 (\<lambda>i. 1 / 2) ! 0 = Fin 5
   \<and> map date (forecast_response (generateForecast (map Fin [1, 3]) 2 (\<lambda>i. 1 / 2))) = [1..2]"
proof -
  have h: "\<forall>i < nat 2. (0::real) \<le> (\<lambda>i. 1 / 2) i \<and> (\<lambda>i. 1 / 2 :: real) i < 1"
    by simp
  have "ols_slope [1, 3] = 2" and "ols_intercept [1, 3] = 1"
    by (simp_all add: ols_slope_def ols_intercept_def sum_x_def sum_y_def sum_xy_def sum_xx_def)
  then show ?thesis
    using generateForecast_points[of "[1, 3]" 2 "\<lambda>i. 1 / 2", OF _ _ h]
    by simp
qed

section \<open>Series that are too short\<close>

lemma linearRegression_Nil: "linearRegression [] = \<lparr>slope = NaN, intercept = NaN\<rparr>"
  by (simp add: linearRegression_def js_sub_def)

lemma linearRegression_single: "linearRegression [v] = \<lparr>slope = NaN, intercept = NaN\<rparr>"
  by (cases v) (simp_all add: linearRegression_def js_sub_def js_inf_def)

lemma linearRegression_short:
  assumes "length series < 2"
  shows "linearRegression series = \<lparr>slope = NaN, intercept = NaN\<rparr>"
proof (cases series)
  case Nil
  then show ?thesis by (simp add: linearRegression_Nil)
next
  case (Cons v vs)
  with assms have "series = [v]" by simp
  then show ?thesis by (simp add: linearRegression_single)
qed

lemma generateForecast_short:
  assumes "length series < 2"
  shows "generateForecast series days rnd = replicate (nat days) NaN"
  by (simp add: generateForecast_def linearRegression_short[OF assms] map_replicate_const)

text \<open>
  Claim C3, as stated, fails: the one-point series \<open>[5]\<close> is fitted without any error, to
  a slope and an intercept that are both \<open>NaN\<close> (the slope is \<open>0 / 0\<close>), and its one-day
  forecast is returned as \<open>[NaN]\<close>.
\<close>

theorem short_series_counterexample:
  "fit [Fin 5] = Inr \<lparr>slope = NaN, intercept = NaN\<rparr>
   \<and> fit [Fin 5] \<noteq> Inl InvalidInput
   \<and> forecast [Fin 5] 1 middle_draws = Inr [NaN]
   \<and> forecast [Fin 5] 1 middle_draws \<noteq> Inl InvalidInput"
  by (simp add: fit_def forecast_def linearRegression_single generateForecast_short)

text \<open>
  Claim C3, amended. For every series of fewer than two numbers, \<open>linearRegression\<close>
  raises nothing and returns slope \<open>NaN\<close> and intercept \<open>NaN\<close>, and \<open>generateForecast\<close>
  raises nothing and returns one \<open>NaN\<close> for each requested day.
\<close>

theorem short_series_NaN:
  assumes "length series < 2"
  shows "fit series = Inr \<lparr>slope = NaN, intercept = NaN\<rparr>
         \<and> forecast series days rnd = Inr (replicate (nat days) NaN)"
  by (simp add: fit_def forecast_def linearRegression_short[OF assms]
      generateForecast_short[OF assms])

theorem short_series_NaN_witness:
  "length [Fin 7] < 2
   \<and> fit [Fin 7] = Inr \<lparr>slope = NaN, intercept = NaN\<rparr>
   \<and> forecast [Fin 7] 3 middle_draws = Inr [NaN, NaN, NaN]"
  using short_series_NaN[of "[Fin 7]" 3 middle_draws]
  by (simp add: numeral_3_eq_3)

section \<open>The empty series\<close>

text \<open>
  Claim C7, as stated, fails: the statistics of the empty series are returned, with a
  \<open>NaN\<close> average, the minimum \<open>+Infinity\<close> and the maximum \<open>-Infinity\<close>.
\<close>

theorem empty_statistics_counterexample:
  "summarize [] \<noteq> Inl InvalidInput
   \<and> average (calculateStatistics []) = NaN
   \<and> min_rate (calculateStatistics []) = PInf
   \<and> max_rate (calculateStatistics []) = NInf"
  by (simp add: summarize_def calculateStatistics_def Math_min_def Math_max_def js_sub_def)

text \<open>
  Claim C7, amended. For the empty series \<open>calculateStatistics\<close> raises nothing and
  returns average \<open>NaN\<close>, minimum \<open>+Infinity\<close>, maximum \<open>-Infinity\<close> and volatility \<open>NaN\<close>;
  the statistics of the \<open>/api/historical\<close> handlers are the same.
\<close>

theorem empty_statistics:
  "summarize []
     = Inr \<lparr>average = NaN, min_rate = PInf, max_rate = NInf, volatility = NaN\<rparr>
   \<and> historical_statistics []
     = \<lparr>average = NaN, min_rate = PInf, max_rate = NInf, volatility = NaN\<rparr>"
  by (simp add: summarize_def calculateStatistics_def historical_statistics_def
      Math_min_def Math_max_def js_sub_def)

section \<open>Confidence of a constant series\<close>

text \<open>
  Claim C4 asks for the confidence 95 on a constant series. On \<open>[100, 100, 100]\<close> and on
  \<open>[5, 5]\<close> the fit is exact, both sums of squares are \<open>0\<close>, \<open>R\<^sup>2\<close> is \<open>1 - 0 / 0\<close>, and
  \<open>Math.min(95, Math.max(50, NaN))\<close> hands the \<open>NaN\<close> to the caller.
\<close>

theorem calculateConfidence_constant:
  "calculateConfidence [Fin 100, Fin 100, Fin 100] = NaN
   \<and> calculateConfidence [Fin 5, Fin 5] = NaN"
  by (simp add: calculateConfidence_def linearRegression_def js_sub_def Math_min_def
      Math_max_def numeral_2_eq_2 upt_rec)

section \<open>Trend of a series\<close>

lemma js_at_first: "ys \<noteq> [] \<Longrightarrow> js_at (map Fin ys) 0 = Fin (hd ys)"
  by (simp add: js_at_def hd_conv_nth)

lemma js_at_last: "ys \<noteq> [] \<Longrightarrow> js_at (map Fin ys) (int (length ys) - 1) = Fin (last ys)"
proof -
  assume ne: "ys \<noteq> []"
  then have "nat (int (length ys) - 1) = length ys - 1" by simp
  moreover have "length ys - 1 < length ys" using ne by simp
  ultimately show ?thesis
    using ne by (simp add: js_at_def last_conv_nth)
qed

lemma percent_change_Fin:
  "a \<noteq> 0 \<Longrightarrow> js_mul (js_div (js_sub (Fin b) (Fin a)) (Fin a)) (Fin 100) = Fin ((b - a) / a * 100)"
  by (simp add: js_sub_def)

text \<open>
  Claim C5. For a series of at least two finite rates whose first rate is not zero,
  \<open>analyzeTrend\<close> returns \<open>percentChange = (last - first) / first * 100\<close> of the raw series
  and takes the direction from the fitted slope: \<open>up\<close> above \<open>0.0001\<close>, \<open>down\<close> below
  \<open>-0.0001\<close>, \<open>stable\<close> otherwise. The two can disagree: \<open>[1, 5, 0, 1.1]\<close> is classified
  \<open>down\<close> with a change of \<open>+10\<close> percent.
\<close>

theorem analyzeTrend_finite:
  assumes "2 \<le> length ys" and "hd ys \<noteq> 0"
  shows "analyzeTrend (map Fin ys)
           = \<lparr>direction = (if 1 / 10000 < ols_slope ys then Up
                           else if ols_slope ys < - (1 / 10000) then Down
                           else Stable),
              percentChange = Fin ((last ys - hd ys) / hd ys * 100)\<rparr>
         \<and> slope (linearRegression (map Fin ys)) = Fin (ols_slope ys)
         \<and> analyzeTrend (map Fin [1, 5, 0, 11 / 10]) = \<lparr>direction = Down, percentChange = Fin 10\<rparr>"
proof -
  have ne: "ys \<noteq> []" using assms(1) by auto
  have fit: "linearRegression (map Fin ys)
               = \<lparr>slope = Fin (ols_slope ys), intercept = Fin (ols_intercept ys)\<rparr>"
    by (rule linearRegression_finite[OF assms(1)])
  have general: "analyzeTrend (map Fin ys)
           = \<lparr>direction = (if 1 / 10000 < ols_slope ys then Up
                           else if ols_slope ys < - (1 / 10000) then Down
                           else Stable),
              percentChange = Fin ((last ys - hd ys) / hd ys * 100)\<rparr>"
    unfolding analyzeTrend_def Let_def
    using js_at_first[OF ne] js_at_last[OF ne] percent_change_Fin[OF assms(2)]
    by (simp add: fit js_gt_def)
  have example: "analyzeTrend (map Fin [1, 5, 0, 11 / 10])
                   = \<lparr>direction = Down, percentChange = Fin 10\<rparr>"
    by (simp add: analyzeTrend_def linearRegression_def js_sub_def js_at_def js_gt_def upt_rec)
  from general fit example show ?thesis by simp
qed

theorem analyzeTrend_finite_witness:
  "2 \<le> length [1, 3 :: real] \<and> hd [1, 3 :: real] \<noteq> 0
   \<and> analyzeTrend (map Fin [1, 3]) = \<lparr>direction = Up, percentChange = Fin 200\<rparr>"
proof -
  have "ols_slope [1, 3] = 2"
    by (simp add: ols_slope_def sum_x_def sum_y_def sum_xy_def sum_xx_def)
  then show ?thesis
    using analyzeTrend_finite[of "[1, 3]"] by simp
qed

section \<open>The centroid\<close>

lemma sum_y_sum_list: "sum_y ys = sum_list ys"
  by (simp add: sum_y_def sum_list_sum_nth)

lemma ols_centroid:
  assumes "2 \<le> length ys"
  shows "ols_intercept ys = mean ys - ols_slope ys * mean_index ys"
    and "ols_slope ys * mean_index ys + ols_intercept ys = mean ys"
    and "(\<Sum>i = 0..<length ys. ys ! i - (ols_slope ys * real i + ols_intercept ys)) = 0"
proof -
  let ?s = "ols_slope ys" and ?b = "ols_intercept ys" and ?n = "real (length ys)"
  have n: "?n \<noteq> 0" using assms by auto
  show b: "?b = mean ys - ?s * mean_index ys"
    by (simp add: ols_intercept_def mean_def mean_index_def sum_y_sum_list diff_divide_distrib)
  then show "?s * mean_index ys + ?b = mean ys" by simp
  have "(\<Sum>i = 0..<length ys. ys ! i - (?s * real i + ?b))
          = sum_y ys - (?s * sum_x ys + ?n * ?b)"
    by (simp add: sum_subtractf sum.distrib sum_distrib_left sum_y_def sum_x_def)
  also have "\<dots> = 0"
    using n by (simp add: ols_intercept_def)
  finally show "(\<Sum>i = 0..<length ys. ys ! i - (?s * real i + ?b)) = 0" .
qed

section \<open>Statistics of a series\<close>

lemma foldl_min_Fin: "foldl Math_min2 (Fin a) (map Fin ys) = Fin (fold min ys a)"
  by (induction ys arbitrary: a) (simp_all add: min_def)

lemma foldl_max_Fin: "foldl Math_max2 (Fin a) (map Fin ys) = Fin (fold max ys a)"
  by (induction ys arbitrary: a) (simp_all add: max_def)

lemma Math_min_Fin:
  assumes "ys \<noteq> []"
  shows "Math_min (map Fin ys) = Fin (Min (set ys))"
proof -
  from assms obtain a list where ys: "ys = a # list" by (cases ys) auto
  have "Math_min (map Fin ys) = Fin (fold min list a)"
    by (simp add: ys Math_min_def foldl_min_Fin)
  also have "fold min list a = Min (set ys)"
    unfolding ys by (rule Min.set_eq_fold[symmetric])
  finally show ?thesis .
qed

lemma Math_max_Fin:
  assumes "ys \<noteq> []"
  shows "Math_max (map Fin ys) = Fin (Max (set ys))"
proof -
  from assms obtain a list where ys: "ys = a # list" by (cases ys) auto
  have "Math_max (map Fin ys) = Fin (fold max list a)"
    by (simp add: ys Math_max_def foldl_max_Fin)
  also have "fold max list a = Max (set ys)"
    unfolding ys by (rule Max.set_eq_fold[symmetric])
  finally show ?thesis .
qed

lemma average_Fin:
  "ys \<noteq> [] \<Longrightarrow>
   js_div (foldl (\<lambda>sum rate. js_add sum rate) (Fin 0) (map Fin ys)) (Fin (real (length ys)))
     = Fin (mean ys)"
  by (simp add: sumY_Fin sum_y_sum_list mean_def)

lemma volatility_Fin:
  assumes "lo \<le> hi"
  shows "js_mul (js_div (js_sub (Fin hi) (Fin lo)) (Fin m)) (Fin 100)
           = (if m = 0 then (if hi = lo then NaN else PInf) else Fin ((hi - lo) / m * 100))"
  using assms by (simp add: js_sub_def js_inf_def)

lemma Min_le_Max_list: "ys \<noteq> [] \<Longrightarrow> Min (set ys) \<le> Max (set (ys :: real list))"
  by (simp add: Min_le_iff)

lemma calculateStatistics_Fin:
  assumes "ys \<noteq> []"
  shows "calculateStatistics (map Fin ys)
           = \<lparr>average = Fin (mean ys), min_rate = Fin (Min (set ys)),
              max_rate = Fin (Max (set ys)),
              volatility = (if mean ys = 0
                            then (if Max (set ys) = Min (set ys) then NaN else PInf)
                            else Fin (volatility_percent ys))\<rparr>"
  unfolding calculateStatistics_def Let_def
  by (simp only: Math_min_Fin[OF assms] Math_max_Fin[OF assms] length_map
      average_Fin[OF assms] volatility_Fin[OF Min_le_Max_list[OF assms]] volatility_percent_def)

lemma historical_statistics_eq:
  "historical_statistics rates
     = \<lparr>average = average (calculateStatistics rates),
        min_rate = min_rate (calculateStatistics rates),
        max_rate = max_rate (calculateStatistics rates),
        volatility = parseFloat_toFixed 2 (volatility (calculateStatistics rates))\<rparr>"
  by (simp add: historical_statistics_def calculateStatistics_def Let_def)

lemma near_hundredth:
  fixes a k :: real
  assumes "k \<le> a * 100 + 1 / 2" and "a * 100 + 1 / 2 < k + 1"
  shows "\<bar>k / 100 - a\<bar> \<le> 1 / 200"
proof -
  have "k / 100 - a \<le> 1 / 200" using assms(1) by simp
  moreover have "- (k / 100 - a) \<le> 1 / 200" using assms(2) by simp
  ultimately show ?thesis by (simp only: abs_le_iff)
qed

lemma round_nearest:
  fixes x :: real
  shows "\<bar>sgn x * of_int \<lfloor>\<bar>x\<bar> * 100 + 1 / 2\<rfloor> / 100 - x\<bar> \<le> 1 / 200"
proof -
  let ?k = "\<lfloor>\<bar>x\<bar> * 100 + 1 / 2\<rfloor>"
  have lo: "of_int ?k \<le> \<bar>x\<bar> * 100 + 1 / 2" by (rule of_int_floor_le)
  have hi: "\<bar>x\<bar> * 100 + 1 / 2 < of_int ?k + 1" by linarith
  have near: "\<bar>of_int ?k / 100 - \<bar>x\<bar>\<bar> \<le> 1 / 200"
    by (rule near_hundredth[OF lo hi])
  have "sgn x * of_int ?k / 100 - x = sgn x * (of_int ?k / 100 - \<bar>x\<bar>)"
    by (simp add: algebra_simps abs_sgn mult.commute)
  then have "\<bar>sgn x * of_int ?k / 100 - x\<bar> = \<bar>sgn x\<bar> * \<bar>of_int ?k / 100 - \<bar>x\<bar>\<bar>"
    by (simp add: abs_mult)
  also have "\<dots> \<le> 1 * \<bar>of_int ?k / 100 - \<bar>x\<bar>\<bar>"
    by (rule mult_right_mono) (simp_all add: abs_sgn_eq)
  finally show ?thesis using near by simp
qed

lemma parseFloat_toFixed_2:
  assumes "\<bar>x\<bar> < 10 ^ 21"
  shows "\<exists>k::int. parseFloat_toFixed 2 (Fin x) = Fin (of_int k / 100)
           \<and> \<bar>of_int k / 100 - x\<bar> \<le> 1 / 200"
proof -
  let ?k = "\<lfloor>\<bar>x\<bar> * 100 + 1 / 2\<rfloor>"
  have "sgn x = 1 \<or> sgn x = 0 \<or> sgn x = -1"
    by (simp add: sgn_if)
  then obtain j :: int where j: "sgn x * of_int ?k = of_int j"
  proof (elim disjE)
    assume "sgn x = 1" then have "sgn x * of_int ?k = of_int ?k" by simp
    then show ?thesis by (rule that)
  next
    assume "sgn x = 0" then have "sgn x * of_int ?k = of_int 0" by simp
    then show ?thesis by (rule that)
  next
    assume "sgn x = -1" then have "sgn x * of_int ?k = of_int (- ?k)" by simp
    then show ?thesis by (rule that)
  qed
  have "parseFloat_toFixed 2 (Fin x) = Fin (sgn x * of_int ?k / 100)"
    using assms by simp
  then have "parseFloat_toFixed 2 (Fin x) = Fin (of_int j / 100)"
    by (simp only: j)
  moreover have "\<bar>of_int j / 100 - x\<bar> \<le> 1 / 200"
    using round_nearest[of x] by (simp only: j)
  ultimately show ?thesis by blast
qed


lemma hundreds_statistics:
  "calculateStatistics [Fin 100, Fin 100, Fin 100]
     = \<lparr>average = Fin 100, min_rate = Fin 100, max_rate = Fin 100, volatility = Fin 0\<rparr>"
  by (simp add: calculateStatistics_def Math_min_def Math_max_def js_sub_def Let_def)

text \<open>
  Claim C6. For a non-empty series of finite rates the statistics are returned with the
  arithmetic mean as average, the least and the greatest rate as \<open>min\<close> and \<open>max\<close>, and the
  volatility \<open>(max - min) / average * 100\<close> (when the average is \<open>0\<close> this quotient is
  \<open>+Infinity\<close>, or \<open>NaN\<close> for a series of zeros). The \<open>/api/historical\<close> handlers send the same
  values with the volatility rounded to two decimals: a whole number of hundredths within
  \<open>0.005\<close> of it. The volatility of \<open>[100, 100, 100]\<close> is \<open>0\<close>, rounded or not.
\<close>

theorem calculateStatistics_finite:
  assumes "ys \<noteq> []"
  shows "summarize (map Fin ys)
           = Inr \<lparr>average = Fin (mean ys), min_rate = Fin (Min (set ys)),
                  max_rate = Fin (Max (set ys)),
                  volatility = (if mean ys = 0
                                then (if Max (set ys) = Min (set ys) then NaN else PInf)
                                else Fin ((Max (set ys) - Min (set ys)) / mean ys * 100))\<rparr>
         \<and> historical_statistics (map Fin ys)
           = \<lparr>average = Fin (mean ys), min_rate = Fin (Min (set ys)),
                max_rate = Fin (Max (set ys)),
                volatility = parseFloat_toFixed 2 (volatility (calculateStatistics (map Fin ys)))\<rparr>
         \<and> (mean ys \<noteq> 0 \<and> \<bar>volatility_percent ys\<bar> < 10 ^ 21 \<longrightarrow>
              (\<exists>k::int. volatility (historical_statistics (map Fin ys)) = Fin (of_int k / 100)
                 \<and> \<bar>of_int k / 100 - volatility_percent ys\<bar> \<le> 1 / 200))
         \<and> volatility (calculateStatistics (map Fin [100, 100, 100])) = Fin 0
         \<and> volatility (historical_statistics (map Fin [100, 100, 100])) = Fin 0"
proof -
  note stats = calculateStatistics_Fin[OF assms]
  have client: "summarize (map Fin ys)
           = Inr \<lparr>average = Fin (mean ys), min_rate = Fin (Min (set ys)),
                  max_rate = Fin (Max (set ys)),
                  volatility = (if mean ys = 0
                                then (if Max (set ys) = Min (set ys) then NaN else PInf)
                                else Fin ((Max (set ys) - Min (set ys)) / mean ys * 100))\<rparr>"
    by (simp add: summarize_def stats volatility_percent_def)
  have server: "historical_statistics (map Fin ys)
           = \<lparr>average = Fin (mean ys), min_rate = Fin (Min (set ys)),
                max_rate = Fin (Max (set ys)),
                volatility = parseFloat_toFixed 2 (volatility (calculateStatistics (map Fin ys)))\<rparr>"
    by (simp add: historical_statistics_eq[of "map Fin ys"] stats)
  have rounded: "mean ys \<noteq> 0 \<and> \<bar>volatility_percent ys\<bar> < 10 ^ 21 \<longrightarrow>
              (\<exists>k::int. volatility (historical_statistics (map Fin ys)) = Fin (of_int k / 100)
                 \<and> \<bar>of_int k / 100 - volatility_percent ys\<bar> \<le> 1 / 200)"
  proof
    assume h: "mean ys \<noteq> 0 \<and> \<bar>volatility_percent ys\<bar> < 10 ^ 21"
    then have "volatility (historical_statistics (map Fin ys))
                 = parseFloat_toFixed 2 (Fin (volatility_percent ys))"
      by (simp add: historical_statistics_eq[of "map Fin ys"] stats)
    then show "\<exists>k::int. volatility (historical_statistics (map Fin ys)) = Fin (of_int k / 100)
                 \<and> \<bar>of_int k / 100 - volatility_percent ys\<bar> \<le> 1 / 200"
      using parseFloat_toFixed_2[of "volatility_percent ys"] h by simp
  qed
  have flat: "volatility (calculateStatistics (map Fin [100, 100, 100])) = Fin 0"
    by (simp add: hundreds_statistics)
  have flat_server: "volatility (historical_statistics (map Fin [100, 100, 100])) = Fin 0"
    by (simp add: historical_statistics_eq hundreds_statistics)
  from client server rounded flat flat_server show ?thesis by (intro conjI)
qed

theorem calculateStatistics_finite_witness:
  "[1, 2, 3 :: real] \<noteq> []
   \<and> summarize (map Fin [1, 2, 3])
       = Inr \<lparr>average = Fin 2, min_rate = Fin 1, max_rate = Fin 3, volatility = Fin 100\<rparr>
   \<and> (mean [1, 2, 3] \<noteq> 0 \<and> \<bar>volatility_percent [1, 2, 3]\<bar> < 10 ^ 21)
   \<and> (\<exists>k::int. volatility (historical_statistics (map Fin [1, 2, 3])) = Fin (of_int k / 100)
         \<and> \<bar>of_int k / 100 - volatility_percent [1, 2, 3]\<bar> \<le> 1 / 200)"
proof -
  have h: "[1, 2, 3 :: real] \<noteq> []" by simp
  have m: "mean [1, 2, 3] = 2" by (simp add: mean_def)
  have v: "volatility_percent [1, 2, 3] = 100" by (simp add: volatility_percent_def m)
  have hyp: "mean [1, 2, 3] \<noteq> 0 \<and> \<bar>volatility_percent [1, 2, 3]\<bar> < 10 ^ 21"
    by (simp add: m v)
  note t = calculateStatistics_finite[OF h]
  from t have "summarize (map Fin [1, 2, 3])
       = Inr \<lparr>average = Fin 2, min_rate = Fin 1, max_rate = Fin 3, volatility = Fin 100\<rparr>"
    by (simp add: m)
  moreover from t hyp
  have "\<exists>k::int. volatility (historical_statistics (map Fin [1, 2, 3])) = Fin (of_int k / 100)
         \<and> \<bar>of_int k / 100 - volatility_percent [1, 2, 3]\<bar> \<le> 1 / 200"
    by blast
  ultimately show ?thesis using h hyp by blast
qed




section \<open>Trend of a forecast\<close>

lemma generateForecast_noisy:
  assumes "2 \<le> length ys"
  shows "generateForecast (map Fin ys) days rnd = map (\<lambda>i. Fin (noisy_point ys rnd i)) [0..<nat days]"
  by (simp add: generateForecast_def linearRegression_finite[OF assms] js_sub_def noisy_point_def)

lemma forecast_trend_Fin:
  assumes "fs \<noteq> []" and "hd fs \<noteq> 0"
  shows "forecast_trend (map Fin fs)
           = \<lparr>direction = (if 1 / 2 < percent_change (hd fs) (last fs) then Up
                           else if percent_change (hd fs) (last fs) < - (1 / 2) then Down
                           else Stable),
              percentChange = Fin (percent_change (hd fs) (last fs))\<rparr>"
  unfolding forecast_trend_def Let_def
  using js_at_first[OF assms(1)] js_at_last[OF assms(1)] percent_change_Fin[OF assms(2)]
  by (simp add: js_gt_def percent_change_def)

lemma simulated_history_Fin:
  "simulated_history baseRate rnd = map Fin (simulated_rates baseRate rnd)"
  by (simp add: simulated_history_def simulated_rates_def js_sub_def Let_def)

lemma flat_forecast_middle:
  "generateForecast [Fin (1 / 10), Fin (1 / 10)] 2 middle_draws = [Fin (1 / 10), Fin (1 / 10)]"
  by (simp add: generateForecast_def linearRegression_def js_sub_def middle_draws_def
      numeral_2_eq_2 upt_rec)

lemma flat_forecast_low_high:
  "generateForecast [Fin (1 / 10), Fin (1 / 10)] 2 low_high_draws
     = [Fin (99 / 1000), Fin (100998 / 1000000)]"
  by (simp add: generateForecast_def linearRegression_def js_sub_def low_high_draws_def
      numeral_2_eq_2 upt_rec)

lemma example_stable:
  "forecast_analysis (generateForecast [Fin (1 / 10), Fin (1 / 10)] 2 middle_draws)
     = \<lparr>direction = Stable, percentChange = Fin 0\<rparr>"
  unfolding flat_forecast_middle
  by (simp add: forecast_analysis_def forecast_trend_def js_at_def js_sub_def js_gt_def)

lemma example_up:
  "forecast_analysis (generateForecast [Fin (1 / 10), Fin (1 / 10)] 2 low_high_draws)
     = \<lparr>direction = Up, percentChange = Fin (202 / 100)\<rparr>"
  unfolding flat_forecast_low_high
  by (simp add: forecast_analysis_def forecast_trend_def js_at_def js_sub_def js_gt_def)

text \<open>
  Claim C8. In the \<open>/api/forecast\<close> handler that serves simulated rates, \<open>percentChange\<close>
  is computed from the first and the last point of the generated forecast, noise included,
  not from the historical series, and the direction is decided by that percentage alone:
  \<open>up\<close> above \<open>0.5\<close>, \<open>down\<close> below \<open>-0.5\<close>, \<open>stable\<close> otherwise; the percentage is sent rounded
  to two decimals. On the flat history \<open>[0.1, 0.1]\<close> draws without noise give \<open>stable\<close> with
  \<open>0\<close> percent, and a low first and high second draw give \<open>up\<close> with \<open>2.02\<close> percent.
\<close>

theorem forecast_endpoint_trend:
  assumes "2 \<le> length ys" and "1 \<le> days" and "noisy_point ys rnd 0 \<noteq> 0"
  shows "forecast_trend (generateForecast (map Fin ys) days rnd)
           = \<lparr>direction =
                (if 1 / 2 < percent_change (noisy_point ys rnd 0) (noisy_point ys rnd (nat days - 1))
                 then Up
                 else if percent_change (noisy_point ys rnd 0) (noisy_point ys rnd (nat days - 1))
                           < - (1 / 2)
                 then Down else Stable),
              percentChange =
                Fin (percent_change (noisy_point ys rnd 0) (noisy_point ys rnd (nat days - 1)))\<rparr>
         \<and> forecast_analysis (generateForecast (map Fin ys) days rnd)
           = \<lparr>direction = direction (forecast_trend (generateForecast (map Fin ys) days rnd)),
              percentChange = parseFloat_toFixed 2
                (Fin (percent_change (noisy_point ys rnd 0) (noisy_point ys rnd (nat days - 1))))\<rparr>
         \<and> forecast_endpoint baseRate days rnd_history rnd
           = forecast_analysis
               (generateForecast (map Fin (simulated_rates baseRate rnd_history)) days rnd)
         \<and> length (simulated_rates baseRate rnd_history) = 90
         \<and> forecast_analysis (generateForecast [Fin (1 / 10), Fin (1 / 10)] 2 middle_draws)
           = \<lparr>direction = Stable, percentChange = Fin 0\<rparr>
         \<and> forecast_analysis (generateForecast [Fin (1 / 10), Fin (1 / 10)] 2 low_high_draws)
           = \<lparr>direction = Up, percentChange = Fin (202 / 100)\<rparr>"
proof -
  let ?ps = "map (noisy_point ys rnd) [0..<nat days]"
  have d: "0 < nat days" using assms(2) by simp
  have gen: "generateForecast (map Fin ys) days rnd = map Fin ?ps"
    by (simp add: generateForecast_noisy[OF assms(1)] comp_def)
  have ne: "?ps \<noteq> []" using d by simp
  have first: "hd ?ps = noisy_point ys rnd 0"
    using d by (simp add: hd_map upt_conv_Cons)
  have last: "last ?ps = noisy_point ys rnd (nat days - 1)"
    using d by (simp add: last_map last_upt)
  have nz: "hd ?ps \<noteq> 0" unfolding first by (rule assms(3))
  have trend: "forecast_trend (generateForecast (map Fin ys) days rnd)
           = \<lparr>direction =
                (if 1 / 2 < percent_change (noisy_point ys rnd 0) (noisy_point ys rnd (nat days - 1))
                 then Up
                 else if percent_change (noisy_point ys rnd 0) (noisy_point ys rnd (nat days - 1))
                           < - (1 / 2)
                 then Down else Stable),
              percentChange =
                Fin (percent_change (noisy_point ys rnd 0) (noisy_point ys rnd (nat days - 1)))\<rparr>"
    unfolding gen using forecast_trend_Fin[OF ne nz] by (simp only: first last)
  have analysis: "forecast_analysis (generateForecast (map Fin ys) days rnd)
           = \<lparr>direction = direction (forecast_trend (generateForecast (map Fin ys) days rnd)),
              percentChange = parseFloat_toFixed 2
                (Fin (percent_change (noisy_point ys rnd 0) (noisy_point ys rnd (nat days - 1))))\<rparr>"
    by (simp add: forecast_analysis_def Let_def trend)
  have endpoint: "forecast_endpoint baseRate days rnd_history rnd
           = forecast_analysis
               (generateForecast (map Fin (simulated_rates baseRate rnd_history)) days rnd)"
    by (simp only: forecast_endpoint_def simulated_history_Fin)
  have len: "length (simulated_rates baseRate rnd_history) = 90"
    by (simp add: simulated_rates_def)
  from trend analysis endpoint len example_stable example_up show ?thesis by (intro conjI)
qed

theorem forecast_endpoint_trend_witness:
  "2 \<le> length [1 / 10, 1 / 10 :: real] \<and> (1::int) \<le> 2
   \<and> noisy_point [1 / 10, 1 / 10] low_high_draws 0 \<noteq> 0
   \<and> forecast_trend (generateForecast (map Fin [1 / 10, 1 / 10]) 2 low_high_draws)
       = \<lparr>direction = Up, percentChange = Fin (111 / 55)\<rparr>"
proof -
  have s: "ols_slope [1 / 10, 1 / 10] = 0" and b: "ols_intercept [1 / 10, 1 / 10] = 1 / 10"
    by (simp_all add: ols_slope_def ols_intercept_def sum_x_def sum_y_def sum_xy_def sum_xx_def)
  have p0: "noisy_point [1 / 10, 1 / 10] low_high_draws 0 = 99 / 1000"
    by (simp add: noisy_point_def s b low_high_draws_def)
  have p1: "noisy_point [1 / 10, 1 / 10] low_high_draws (Suc 0) = 100998 / 1000000"
    by (simp add: noisy_point_def s b low_high_draws_def)
  have nz: "noisy_point [1 / 10, 1 / 10] low_high_draws 0 \<noteq> 0" by (simp add: p0)
  show ?thesis
    using forecast_endpoint_trend[of "[1 / 10, 1 / 10]" 2 low_high_draws, OF _ _ nz]
    by (simp add: p0 p1 percent_change_def)
qed

section \<open>Evaluation in doubles\<close>

lemma binade_numeral:
  "binade (numeral k) x =
     (if 2 \<le> x then binade (pred_numeral k) (x / 2) + 1
      else if x < 1 then binade (pred_numeral k) (x * 2) - 1
      else 0)"
  by (simp add: numeral_eq_Suc)

lemmas round_double_eval = round_double_def round_even_def pow2_def Let_def binade_numeral

lemma round_tenth: "round_double (1 / 10) = Fin tenth"
  by (simp add: round_double_eval tenth_def)

lemma linearRegression_unrounded: "linearRegression_rounded (\<lambda>v. v) rates = linearRegression rates"
  by (simp add: linearRegression_rounded_def linearRegression_def)



lemma fit_tenths:
  "linearRegression_rounded dbl [Fin tenth, Fin tenth, Fin tenth]
     = \<lparr>slope = Fin 0, intercept = Fin tenth_up\<rparr>"
  by (simp add: linearRegression_rounded_def js_sub_def upt_rec
      round_double_eval tenth_def tenth_up_def)

lemma fit_1_3:
  "linearRegression_rounded dbl [Fin 1, Fin 3] = \<lparr>slope = Fin 2, intercept = Fin 1\<rparr>"
  by (simp add: linearRegression_rounded_def js_sub_def upt_rec round_double_eval)


lemma pow2_pos: "0 < pow2 e"
  by (simp add: pow2_def)













section \<open>Rounding errors\<close>

lemma pow2_powi: "pow2 e = 2 powi e"
  by (simp add: pow2_def power_int_def inverse_eq_divide power_one_over)

lemma pow2_plus1: "pow2 (e + 1) = 2 * pow2 e"
  by (simp add: pow2_powi power_int_add_1)

lemma pow2_minus1: "pow2 (e - 1) = pow2 e / 2"
  by (simp add: pow2_powi power_int_diff)

lemma pow2_minus52: "pow2 (e - 52) = pow2 e / 2 ^ 52"
  by (simp add: pow2_powi power_int_diff)

lemma binade_ge1: "1 \<le> x \<Longrightarrow> pow2 (binade k x) \<le> x"
proof (induction k arbitrary: x)
  case 0
  then show ?case by (simp add: pow2_def)
next
  case (Suc k)
  show ?case
  proof (cases "2 \<le> x")
    case True
    then have "pow2 (binade k (x / 2)) \<le> x / 2" by (intro Suc.IH) simp
    with True show ?thesis by (simp add: pow2_plus1)
  next
    case False
    with Suc.prems show ?thesis by (simp add: pow2_def)
  qed
qed

lemma binade_lt1:
  "0 < x \<Longrightarrow> x < 1 \<Longrightarrow> - int k < binade k x \<Longrightarrow> pow2 (binade k x) \<le> x"
proof (induction k arbitrary: x)
  case 0
  then show ?case by simp
next
  case (Suc k)
  have b: "binade (Suc k) x = binade k (x * 2) - 1" using Suc.prems(2) by simp
  have "pow2 (binade k (x * 2)) \<le> x * 2"
  proof (cases "x * 2 < 1")
    case True
    moreover have "- int k < binade k (x * 2)" using Suc.prems(3) b by simp
    ultimately show ?thesis using Suc.prems(1) by (intro Suc.IH) simp_all
  next
    case False
    then show ?thesis by (intro binade_ge1) simp
  qed
  then show ?case unfolding b by (simp add: pow2_minus1)
qed

lemma binade_lower:
  assumes "0 < x" and "- int k < binade k x"
  shows "pow2 (binade k x) \<le> x"
proof (cases "x < 1")
  case True
  then show ?thesis by (rule binade_lt1[OF assms(1) _ assms(2)])
next
  case False
  then show ?thesis by (intro binade_ge1) simp
qed

lemma round_even_error: "\<bar>of_int (round_even z) - z\<bar> \<le> 1 / 2"
proof -
  have "of_int \<lfloor>z\<rfloor> \<le> z" and "z < of_int \<lfloor>z\<rfloor> + 1" by linarith+
  then show ?thesis
    by (auto simp: round_even_def Let_def abs_le_iff)
qed

lemma round_double_error:
  assumes "round_double x = Fin y"
  shows "\<bar>y - x\<bar> \<le> \<bar>x\<bar> / 2 ^ 53 + 1 / 2 ^ 1075"
proof (cases "x = 0")
  case True
  with assms show ?thesis by (simp add: round_double_def)
next
  case False
  define e where "e = max (binade 1100 \<bar>x\<bar>) (- 1022)"
  define q where "q = pow2 (e - 52)"
  define m where "m = round_even (\<bar>x\<bar> / q)"
  have q: "0 < q" unfolding q_def by (rule pow2_pos)
  have rd: "round_double x = (if 2 ^ 1024 \<le> of_int m * q then js_inf (0 < x)
                              else Fin (sgn x * (of_int m * q)))"
    using False by (simp add: round_double_def Let_def e_def q_def m_def)
  have y: "y = sgn x * (of_int m * q)"
    using assms rd by (auto simp: js_inf_def split: if_splits)
  have "y - x = sgn x * (of_int m * q - \<bar>x\<bar>)"
    by (simp add: y algebra_simps abs_sgn mult.commute)
  then have "\<bar>y - x\<bar> = \<bar>of_int m * q - \<bar>x\<bar>\<bar>"
    using False by (simp add: abs_mult abs_sgn_eq)
  also have "of_int m * q - \<bar>x\<bar> = q * (of_int m - \<bar>x\<bar> / q)"
    using q by (simp add: algebra_simps)
  also have "\<bar>q * (of_int m - \<bar>x\<bar> / q)\<bar> = q * \<bar>of_int m - \<bar>x\<bar> / q\<bar>"
    using q by (simp add: abs_mult)
  also have "\<dots> \<le> q * (1 / 2)"
    using q round_even_error[of "\<bar>x\<bar> / q"] unfolding m_def
    by (intro mult_left_mono) simp_all
  finally have err: "\<bar>y - x\<bar> \<le> q / 2" by simp
  have "q / 2 \<le> \<bar>x\<bar> / 2 ^ 53 + 1 / 2 ^ 1075"
  proof (cases "- 1022 \<le> binade 1100 \<bar>x\<bar>")
    case True
    then have e: "e = binade 1100 \<bar>x\<bar>" by (simp add: e_def)
    have "pow2 (binade 1100 \<bar>x\<bar>) \<le> \<bar>x\<bar>"
      using False True by (intro binade_lower) simp_all
    then have "q \<le> \<bar>x\<bar> / 2 ^ 52"
      by (simp add: q_def e pow2_minus52 divide_right_mono)
    then have "q / 2 \<le> \<bar>x\<bar> / 2 ^ 53" by simp
    then show ?thesis by (simp add: add_increasing2)
  next
    case False
    then have "e = - 1022" by (simp add: e_def)
    then have "q = 1 / 2 ^ 1074" by (simp add: q_def pow2_def)
    then have "q / 2 = 1 / 2 ^ 1075" by simp
    then show ?thesis by (simp add: add_increasing)
  qed
  with err show ?thesis by linarith
qed


lemma unit_roundoff_pos: "0 \<le> unit_roundoff"
  by (simp add: unit_roundoff_def)

lemma min_normal_pos: "0 \<le> min_normal"
  by (simp add: min_normal_def)

lemma round_double_error_u:
  assumes "round_double x = Fin y"
  shows "\<bar>y - x\<bar> \<le> unit_roundoff * (\<bar>x\<bar> + min_normal)"
proof -
  have "(1 / 2 ^ 53) * (1 / 2 ^ 1022) = (1 / 2 ^ 1075 :: real)" by simp
  then have "unit_roundoff * (\<bar>x\<bar> + min_normal) = \<bar>x\<bar> / 2 ^ 53 + 1 / 2 ^ 1075"
    unfolding unit_roundoff_def min_normal_def by (simp only: distrib_left) simp
  then show ?thesis using round_double_error[OF assms] by simp
qed

lemma foldl_dbl_add_finite:
  "foldl (\<lambda>sum val. dbl (js_add sum val)) acc (map Fin ys) = Fin s \<Longrightarrow> \<exists>a. acc = Fin a"
proof (induction ys arbitrary: acc)
  case Nil
  then show ?case by simp
next
  case (Cons y ys)
  then obtain a' where "dbl (js_add acc (Fin y)) = Fin a'" by force
  then show ?case by (cases acc) simp_all
qed

lemma error_step:
  fixes a t y a' u c A :: real
  assumes u: "0 \<le> u" and c: "0 \<le> c" and A: "\<bar>t\<bar> \<le> A"
    and E: "\<bar>a - t\<bar> \<le> ((1 + u) ^ k - 1) * (A + c)"
    and r: "\<bar>a' - (a + y)\<bar> \<le> u * (\<bar>a + y\<bar> + c)"
  shows "\<bar>a' - (t + y)\<bar> \<le> ((1 + u) ^ Suc k - 1) * (A + \<bar>y\<bar> + c)"
proof -
  let ?B = "A + \<bar>y\<bar> + c"
  let ?p = "(1 + u) ^ k"
  have p1: "1 \<le> ?p" using u by (simp add: one_le_power)
  have A0: "0 \<le> A" using A by linarith
  have B: "A + c \<le> ?B" by simp
  have B0: "0 \<le> ?B" using A0 c by simp
  have E': "\<bar>a - t\<bar> \<le> (?p - 1) * ?B"
    using E mult_left_mono[OF B, of "?p - 1"] p1 by linarith
  have "\<bar>a + y\<bar> \<le> \<bar>t + y\<bar> + \<bar>a - t\<bar>" by linarith
  also have "\<dots> \<le> A + \<bar>y\<bar> + (?p - 1) * ?B" using A E' by linarith
  finally have ay: "\<bar>a + y\<bar> + c \<le> ?B + (?p - 1) * ?B" by linarith
  have "?B + (?p - 1) * ?B = ?p * ?B" by (simp add: algebra_simps)
  with ay have "\<bar>a + y\<bar> + c \<le> ?p * ?B" by simp
  then have "u * (\<bar>a + y\<bar> + c) \<le> u * (?p * ?B)" using u by (rule mult_left_mono)
  with r have r': "\<bar>a' - (a + y)\<bar> \<le> u * (?p * ?B)" by linarith
  have "\<bar>a' - (t + y)\<bar> \<le> \<bar>a' - (a + y)\<bar> + \<bar>a - t\<bar>" by linarith
  also have "\<dots> \<le> u * (?p * ?B) + (?p - 1) * ?B" using r' E' by linarith
  also have "\<dots> = ((1 + u) ^ Suc k - 1) * ?B" by (simp add: algebra_simps)
  finally show ?thesis .
qed

lemma foldl_dbl_add_error:
  assumes "foldl (\<lambda>sum val. dbl (js_add sum val)) (Fin a) (map Fin ys) = Fin s"
    and "\<bar>t\<bar> \<le> A"
    and "\<bar>a - t\<bar> \<le> ((1 + unit_roundoff) ^ k - 1) * (A + min_normal)"
  shows "\<bar>s - (t + sum_list ys)\<bar>
           \<le> ((1 + unit_roundoff) ^ (k + length ys) - 1)
               * (A + sum_list (map abs ys) + min_normal)"
  using assms
proof (induction ys arbitrary: a t A k)
  case Nil
  then show ?case by simp
next
  case (Cons y ys)
  from Cons.prems(1)
  have f: "foldl (\<lambda>sum val. dbl (js_add sum val)) (round_double (a + y)) (map Fin ys) = Fin s"
    by simp
  then obtain a' where a': "round_double (a + y) = Fin a'"
    using foldl_dbl_add_finite by blast
  have step: "\<bar>a' - (t + y)\<bar>
                \<le> ((1 + unit_roundoff) ^ Suc k - 1) * (A + \<bar>y\<bar> + min_normal)"
    by (rule error_step[OF unit_roundoff_pos min_normal_pos Cons.prems(2) Cons.prems(3)
          round_double_error_u[OF a']])
  have t: "\<bar>t + y\<bar> \<le> A + \<bar>y\<bar>" using Cons.prems(2) by linarith
  have "\<bar>s - (t + y + sum_list ys)\<bar>
          \<le> ((1 + unit_roundoff) ^ (Suc k + length ys) - 1)
              * (A + \<bar>y\<bar> + sum_list (map abs ys) + min_normal)"
    by (rule Cons.IH[OF f[unfolded a'] t step])
  then show ?case by (simp add: algebra_simps)
qed

lemma sum_rounded_error:
  assumes "foldl (\<lambda>sum val. dbl (js_add sum val)) (Fin 0) (map Fin ys) = Fin s"
  shows "\<bar>s - sum_list ys\<bar>
           \<le> ((1 + unit_roundoff) ^ length ys - 1) * (sum_list (map abs ys) + min_normal)"
  using foldl_dbl_add_error[OF assms, of 0 0 0] by simp

lemma sum_list_abs: "\<bar>sum_list ys\<bar> \<le> sum_list (map abs (ys :: real list))"
proof (induction ys)
  case Nil
  show ?case by simp
next
  case (Cons y ys)
  have "\<bar>y + sum_list ys\<bar> \<le> \<bar>y\<bar> + \<bar>sum_list ys\<bar>" by (rule abs_triangle_ineq)
  with Cons show ?case by simp
qed

lemma dbl_Fin_cases: "dbl v = Fin a \<Longrightarrow> \<exists>x. v = Fin x"
  by (cases v) simp_all

lemma js_div_Fin_cases: "js_div v (Fin n) = Fin a \<Longrightarrow> \<exists>x. v = Fin x"
  by (cases v) (simp_all add: js_inf_def split: if_splits)




lemma intercept_error_algebra:
  fixes b t p s Sx Sy n u c :: real
  assumes u: "0 \<le> u" and c: "0 \<le> c" and n: "1 \<le> n"
    and hp: "\<bar>p - s * Sx\<bar> \<le> u * (\<bar>s * Sx\<bar> + c)"
    and ht: "\<bar>t - (Sy - p)\<bar> \<le> u * (\<bar>Sy - p\<bar> + c)"
    and hb: "\<bar>b - t / n\<bar> \<le> u * (\<bar>t / n\<bar> + c)"
  shows "\<bar>n * b - (Sy - s * Sx)\<bar> \<le> ((1 + u) ^ 3 - 1) * (\<bar>Sy\<bar> + \<bar>s * Sx\<bar> + c) + n * u * c"
proof -
  define W where "W = \<bar>Sy\<bar> + \<bar>s * Sx\<bar> + c"
  define q where "q = 1 + u"
  have n0: "0 < n" using n by linarith
  have W0: "0 \<le> W" unfolding W_def using c by simp
  have q1: "1 \<le> q" unfolding q_def using u by simp
  have "u * (\<bar>s * Sx\<bar> + c) \<le> u * W"
    using u unfolding W_def by (intro mult_left_mono) simp_all
  with hp have e1: "\<bar>p - s * Sx\<bar> \<le> u * W" by linarith
  have "\<bar>Sy - p\<bar> + c \<le> W + u * W" using e1 unfolding W_def by linarith
  also have "\<dots> = q * W" by (simp add: q_def algebra_simps)
  finally have sp: "\<bar>Sy - p\<bar> + c \<le> q * W" .
  then have "u * (\<bar>Sy - p\<bar> + c) \<le> u * (q * W)" using u by (rule mult_left_mono)
  with ht have e2: "\<bar>t - (Sy - p)\<bar> \<le> u * (q * W)" by linarith
  have "\<bar>t\<bar> \<le> q * W + u * (q * W)" using e2 sp c by linarith
  also have "\<dots> = q * (q * W)" by (simp add: q_def algebra_simps)
  finally have tb: "\<bar>t\<bar> \<le> q * (q * W)" .
  have "\<bar>n * b - t\<bar> = n * \<bar>b - t / n\<bar>"
  proof -
    have "n * b - t = n * (b - t / n)" using n0 by (simp add: algebra_simps)
    then show ?thesis using n0 by (simp add: abs_mult)
  qed
  also have "\<dots> \<le> n * (u * (\<bar>t / n\<bar> + c))" using hb n0 by (intro mult_left_mono) simp_all
  also have "\<dots> = u * \<bar>t\<bar> + n * u * c" using n0 by (simp add: algebra_simps)
  also have "\<dots> \<le> u * (q * (q * W)) + n * u * c"
    using mult_left_mono[OF tb u] by simp
  finally have e3: "\<bar>n * b - t\<bar> \<le> u * (q * (q * W)) + n * u * c" .
  have "\<bar>n * b - (Sy - s * Sx)\<bar> \<le> \<bar>n * b - t\<bar> + \<bar>t - (Sy - p)\<bar> + \<bar>p - s * Sx\<bar>"
    by linarith
  also have "\<dots> \<le> u * (q * (q * W)) + n * u * c + u * (q * W) + u * W"
    using e1 e2 e3 by linarith
  also have "\<dots> = ((1 + u) ^ 3 - 1) * W + n * u * c"
    by (simp add: q_def algebra_simps power3_eq_cube)
  finally show ?thesis unfolding W_def .
qed

lemma residual_error_algebra:
  fixes b s Sx Sy Tx Ty Ax Ay n u c K P :: real
  assumes K: "1 \<le> K" and P: "1 \<le> P" and c: "0 \<le> c"
    and h: "\<bar>n * b - (Sy - s * Sx)\<bar> \<le> (K - 1) * (\<bar>Sy\<bar> + \<bar>s * Sx\<bar> + c) + n * u * c"
    and hy: "\<bar>Sy - Ty\<bar> \<le> (P - 1) * (Ay + c)" and ty: "\<bar>Ty\<bar> \<le> Ay"
    and hx: "\<bar>Sx - Tx\<bar> \<le> (P - 1) * (Ax + c)" and tx: "\<bar>Tx\<bar> \<le> Ax"
  shows "\<bar>Ty - s * Tx - n * b\<bar>
           \<le> (K * P - 1) * (Ay + \<bar>s\<bar> * Ax + (1 + \<bar>s\<bar>) * c) + n * u * c"
proof -
  define Y where "Y = Ay + c"
  define X where "X = \<bar>s\<bar> * (Ax + c)"
  define PY where "PY = P * Y"
  define PX where "PX = P * X"
  have Ax0: "0 \<le> Ax" using tx by linarith
  have X0: "0 \<le> X" unfolding X_def using Ax0 c by simp
  have sy: "\<bar>Sy\<bar> \<le> PY - c"
  proof -
    have "\<bar>Sy\<bar> \<le> Ay + (P - 1) * (Ay + c)" using hy ty by linarith
    also have "\<dots> = PY - c" by (simp add: PY_def Y_def algebra_simps)
    finally show ?thesis .
  qed
  have sx: "\<bar>Sx\<bar> \<le> P * (Ax + c)"
  proof -
    have "\<bar>Sx\<bar> \<le> Ax + (P - 1) * (Ax + c)" using hx tx by linarith
    also have "\<dots> = P * (Ax + c) - c" by (simp add: algebra_simps)
    finally show ?thesis using c by linarith
  qed
  have ssx: "\<bar>s * Sx\<bar> \<le> PX"
  proof -
    have "\<bar>s\<bar> * \<bar>Sx\<bar> \<le> \<bar>s\<bar> * (P * (Ax + c))" using sx by (intro mult_left_mono) simp_all
    then show ?thesis by (simp add: abs_mult PX_def X_def algebra_simps)
  qed
  have dx: "\<bar>s * Sx - s * Tx\<bar> \<le> PX - X"
  proof -
    have "\<bar>s * Sx - s * Tx\<bar> = \<bar>s\<bar> * \<bar>Sx - Tx\<bar>"
      by (simp add: abs_mult right_diff_distrib[symmetric])
    also have "\<dots> \<le> \<bar>s\<bar> * ((P - 1) * (Ax + c))" using hx by (intro mult_left_mono) simp_all
    also have "\<dots> = PX - X" by (simp add: PX_def X_def algebra_simps)
    finally show ?thesis .
  qed
  have dy: "\<bar>Sy - Ty\<bar> \<le> PY - Y"
    using hy by (simp add: PY_def Y_def algebra_simps)
  have "(K - 1) * (\<bar>Sy\<bar> + \<bar>s * Sx\<bar> + c) \<le> (K - 1) * (PY + PX)"
    using sy ssx K by (intro mult_left_mono) simp_all
  with h have h': "\<bar>n * b - (Sy - s * Sx)\<bar> \<le> (K - 1) * (PY + PX) + n * u * c" by linarith
  have "\<bar>Ty - s * Tx - n * b\<bar>
          \<le> \<bar>n * b - (Sy - s * Sx)\<bar> + \<bar>Sy - Ty\<bar> + \<bar>s * Sx - s * Tx\<bar>"
    by linarith
  also have "\<dots> \<le> (K - 1) * (PY + PX) + n * u * c + (PY - Y) + (PX - X)"
    using h' dy dx by linarith
  also have "\<dots> = (K * P - 1) * (Y + X) + n * u * c"
    by (simp add: PY_def PX_def algebra_simps)
  also have "Y + X = Ay + \<bar>s\<bar> * Ax + (1 + \<bar>s\<bar>) * c"
    by (simp add: Y_def X_def algebra_simps)
  finally show ?thesis .
qed


lemma intercept_rounded_formula:
  "intercept (linearRegression_rounded r rates)
     = r (js_div (r (js_sub (sumY_rounded r rates)
                            (r (js_mul (slope (linearRegression_rounded r rates))
                                       (sumX_rounded r rates)))))
                 (Fin (real (length rates))))"
  by (simp add: linearRegression_rounded_def sumX_rounded_def sumY_rounded_def Let_def)

lemma js_sub_Fin_cases: "js_sub v w = Fin a \<Longrightarrow> \<exists>x y. v = Fin x \<and> w = Fin y"
  by (cases v; cases w) (simp_all add: js_sub_def)

lemma js_mul_Fin_cases: "js_mul (Fin s) w = Fin a \<Longrightarrow> \<exists>y. w = Fin y"
  by (cases w) (simp_all add: js_inf_def split: if_splits)

lemma sumX_rounded_error:
  assumes "sumX_rounded dbl (map Fin ys) = Fin Sx"
  shows "\<bar>Sx - sum_x ys\<bar> \<le> ((1 + unit_roundoff) ^ length ys - 1) * (sum_x ys + min_normal)"
proof -
  have "foldl (\<lambda>sum val. dbl (js_add sum val)) (Fin 0) (map Fin (map real [0..<length ys]))
          = Fin Sx"
    using assms by (simp add: sumX_rounded_def comp_def)
  from sum_rounded_error[OF this]
  have "\<bar>Sx - sum_list (map real [0..<length ys])\<bar>
          \<le> ((1 + unit_roundoff) ^ length ys - 1)
              * (sum_list (map abs (map real [0..<length ys])) + min_normal)"
    by simp
  moreover have "sum_list (map (abs \<circ> real) [0..<length ys]) = sum_x ys"
    by (simp add: comp_def sum_x_def sum_list_upt)
  moreover have "sum_list (map real [0..<length ys]) = sum_x ys"
    by (simp add: sum_x_def sum_list_upt)
  ultimately show ?thesis by simp
qed

lemma residual_sum_rounded_error:
  assumes ne: "ys \<noteq> []"
    and fit: "linearRegression_rounded dbl (map Fin ys) = \<lparr>slope = Fin s, intercept = Fin b\<rparr>"
  shows "\<bar>\<Sum>i = 0..<length ys. ys ! i - (s * real i + b)\<bar>
           \<le> ((1 + unit_roundoff) ^ (length ys + 3) - 1)
               * (sum_list (map abs ys) + \<bar>s\<bar> * sum_x ys + (1 + \<bar>s\<bar>) * min_normal)
             + real (length ys) * unit_roundoff * min_normal"
proof -
  let ?n = "real (length ys)"
  let ?u = unit_roundoff and ?c = min_normal
  let ?SX = "sumX_rounded dbl (map Fin ys)" and ?SY = "sumY_rounded dbl (map Fin ys)"
  have n1: "1 \<le> ?n" using ne by (cases ys) simp_all
  have sl: "slope (linearRegression_rounded dbl (map Fin ys)) = Fin s"
    and ic: "intercept (linearRegression_rounded dbl (map Fin ys)) = Fin b"
    by (simp_all add: fit)
  have b: "dbl (js_div (dbl (js_sub ?SY (dbl (js_mul (Fin s) ?SX)))) (Fin ?n)) = Fin b"
    using intercept_rounded_formula[of dbl "map Fin ys"] by (simp add: sl ic)
  then obtain q where q: "js_div (dbl (js_sub ?SY (dbl (js_mul (Fin s) ?SX)))) (Fin ?n) = Fin q"
    using dbl_Fin_cases by blast
  then obtain t where t: "dbl (js_sub ?SY (dbl (js_mul (Fin s) ?SX))) = Fin t"
    using js_div_Fin_cases by blast
  then obtain d where d: "js_sub ?SY (dbl (js_mul (Fin s) ?SX)) = Fin d"
    using dbl_Fin_cases by blast
  then obtain Sy p where Sy: "?SY = Fin Sy" and p: "dbl (js_mul (Fin s) ?SX) = Fin p"
    using js_sub_Fin_cases by blast
  then obtain m where m: "js_mul (Fin s) ?SX = Fin m"
    using dbl_Fin_cases by blast
  then obtain Sx where Sx: "?SX = Fin Sx"
    using js_mul_Fin_cases by blast
  have "round_double (s * Sx) = Fin p" using p by (simp add: Sx)
  then have hp: "\<bar>p - s * Sx\<bar> \<le> ?u * (\<bar>s * Sx\<bar> + ?c)" by (rule round_double_error_u)
  have "round_double (Sy - p) = Fin t" using t by (simp add: Sy p js_sub_def)
  then have ht: "\<bar>t - (Sy - p)\<bar> \<le> ?u * (\<bar>Sy - p\<bar> + ?c)" by (rule round_double_error_u)
  have "round_double (t / ?n) = Fin b" using b ne by (simp add: t)
  then have hb: "\<bar>b - t / ?n\<bar> \<le> ?u * (\<bar>t / ?n\<bar> + ?c)" by (rule round_double_error_u)
  have h: "\<bar>?n * b - (Sy - s * Sx)\<bar>
             \<le> ((1 + ?u) ^ 3 - 1) * (\<bar>Sy\<bar> + \<bar>s * Sx\<bar> + ?c) + ?n * ?u * ?c"
    by (rule intercept_error_algebra[OF unit_roundoff_pos min_normal_pos n1 hp ht hb])
  have hy: "\<bar>Sy - sum_list ys\<bar> \<le> ((1 + ?u) ^ length ys - 1) * (sum_list (map abs ys) + ?c)"
    using Sy by (intro sum_rounded_error) (simp add: sumY_rounded_def)
  have hx: "\<bar>Sx - sum_x ys\<bar> \<le> ((1 + ?u) ^ length ys - 1) * (sum_x ys + ?c)"
    by (rule sumX_rounded_error[OF Sx])
  have x0: "\<bar>sum_x ys\<bar> \<le> sum_x ys" by (simp add: sum_x_def sum_nonneg)
  have K: "1 \<le> (1 + ?u) ^ 3" and P: "1 \<le> (1 + ?u) ^ length ys"
    using unit_roundoff_pos by (simp_all add: one_le_power)
  have "\<bar>sum_list ys - s * sum_x ys - ?n * b\<bar>
          \<le> ((1 + ?u) ^ 3 * (1 + ?u) ^ length ys - 1)
              * (sum_list (map abs ys) + \<bar>s\<bar> * sum_x ys + (1 + \<bar>s\<bar>) * ?c)
            + ?n * ?u * ?c"
    by (rule residual_error_algebra[OF K P min_normal_pos h hy sum_list_abs hx x0])
  moreover have "(1 + ?u) ^ 3 * (1 + ?u) ^ length ys = (1 + ?u) ^ (length ys + 3)"
    by (simp add: power_add)
  moreover have "(\<Sum>i = 0..<length ys. ys ! i - (s * real i + b))
                   = sum_list ys - s * sum_x ys - ?n * b"
    by (simp add: sum_subtractf sum.distrib sum_distrib_left sum_x_def
        sum_list_sum_nth[of ys] atLeast0LessThan)
  ultimately show ?thesis by (simp only:)
qed

section \<open>The centroid in doubles\<close>

lemma centroid_rounded_error:
  assumes ne: "ys \<noteq> []"
    and fit: "linearRegression_rounded dbl (map Fin ys) = \<lparr>slope = Fin s, intercept = Fin b\<rparr>"
  shows "\<bar>\<Sum>i = 0..<length ys. ys ! i - (s * real i + b)\<bar> \<le> residual_slack s ys"
    and "\<bar>s * mean_index ys + b - mean ys\<bar> \<le> residual_slack s ys / real (length ys)"
proof -
  let ?n = "real (length ys)"
  have n: "0 < ?n" using ne by simp
  show r: "\<bar>\<Sum>i = 0..<length ys. ys ! i - (s * real i + b)\<bar> \<le> residual_slack s ys"
    unfolding residual_slack_def by (rule residual_sum_rounded_error[OF ne fit])
  have "(\<Sum>i = 0..<length ys. ys ! i - (s * real i + b))
          = sum_list ys - s * sum_x ys - ?n * b"
    by (simp add: sum_subtractf sum.distrib sum_distrib_left sum_x_def
        sum_list_sum_nth[of ys] atLeast0LessThan)
  also have "\<dots> = - (?n * (s * mean_index ys + b - mean ys))"
    using n by (simp add: mean_def mean_index_def algebra_simps)
  finally have "\<bar>\<Sum>i = 0..<length ys. ys ! i - (s * real i + b)\<bar>
                  = ?n * \<bar>s * mean_index ys + b - mean ys\<bar>"
    using n by (simp add: abs_mult)
  with r have "?n * \<bar>s * mean_index ys + b - mean ys\<bar> \<le> residual_slack s ys" by simp
  then show "\<bar>s * mean_index ys + b - mean ys\<bar> \<le> residual_slack s ys / ?n"
    using n by (simp add: pos_le_divide_eq mult.commute)
qed

text \<open>
  Claim C9, as stated, fails in the arithmetic of the code. On \<open>[0.1, 0.1, 0.1]\<close> the sum
  rounds up to \<open>0.30000000000000004\<close>, the slope is \<open>0\<close> and the intercept is
  \<open>0.10000000000000002\<close>, the double above every point of the series: it is not
  \<open>mean(y) - slope * mean(x) = 0.1\<close>, and the residuals sum to \<open>-3 / 2\<^sup>5\<^sup>6\<close>.
\<close>

theorem regression_centroid_counterexample:
  "dbl (Fin (1 / 10)) = Fin tenth
   \<and> linearRegression_rounded dbl [Fin tenth, Fin tenth, Fin tenth]
       = \<lparr>slope = Fin 0, intercept = Fin tenth_up\<rparr>
   \<and> mean [tenth, tenth, tenth] = tenth
   \<and> tenth_up \<noteq> mean [tenth, tenth, tenth] - 0 * mean_index [tenth, tenth, tenth]
   \<and> (tenth - (0 * 0 + tenth_up)) + (tenth - (0 * 1 + tenth_up)) + (tenth - (0 * 2 + tenth_up))
       = - (3 / 2 ^ 56)"
  by (simp add: round_tenth fit_tenths mean_def) (simp add: tenth_def tenth_up_def)

text \<open>
  Claim C9, amended. For a series of \<open>n \<ge> 2\<close> finite rates, the fit evaluated without
  rounding satisfies \<open>intercept = mean(y) - slope * mean(x)\<close>: its line passes through the
  centroid and its residuals sum to zero. Evaluated in doubles, as the code does, a fit
  with finite slope \<open>s\<close> and intercept \<open>b\<close> satisfies this up to rounding: the residuals
  \<open>y\<^sub>i - (s i + b)\<close> sum to at most
  \<open>((1 + 2\<^sup>-\<^sup>5\<^sup>3)\<^sup>n\<^sup>+\<^sup>3 - 1) (\<Sigma>|y\<^sub>i| + |s| \<Sigma>i + (1 + |s|) 2\<^sup>-\<^sup>1\<^sup>0\<^sup>2\<^sup>2) + n 2\<^sup>-\<^sup>1\<^sup>0\<^sup>7\<^sup>5\<close> in absolute value,
  and the line passes within that bound divided by \<open>n\<close> of the centroid.
\<close>

theorem regression_centroid_rounded:
  assumes "2 \<le> length ys"
  shows "linearRegression_rounded (\<lambda>v. v) (map Fin ys)
           = \<lparr>slope = Fin (ols_slope ys), intercept = Fin (ols_intercept ys)\<rparr>
         \<and> ols_intercept ys = mean ys - ols_slope ys * mean_index ys
         \<and> ols_slope ys * mean_index ys + ols_intercept ys = mean ys
         \<and> (\<Sum>i = 0..<length ys. ys ! i - (ols_slope ys * real i + ols_intercept ys)) = 0
         \<and> (\<forall>s b. linearRegression_rounded dbl (map Fin ys)
                      = \<lparr>slope = Fin s, intercept = Fin b\<rparr> \<longrightarrow>
                \<bar>\<Sum>i = 0..<length ys. ys ! i - (s * real i + b)\<bar> \<le> residual_slack s ys
                \<and> \<bar>s * mean_index ys + b - mean ys\<bar>
                    \<le> residual_slack s ys / real (length ys))"
proof -
  have ne: "ys \<noteq> []" using assms by auto
  have exact: "linearRegression_rounded (\<lambda>v. v) (map Fin ys)
           = \<lparr>slope = Fin (ols_slope ys), intercept = Fin (ols_intercept ys)\<rparr>"
    by (simp only: linearRegression_unrounded linearRegression_finite[OF assms])
  have rounded: "\<forall>s b. linearRegression_rounded dbl (map Fin ys)
                      = \<lparr>slope = Fin s, intercept = Fin b\<rparr> \<longrightarrow>
                \<bar>\<Sum>i = 0..<length ys. ys ! i - (s * real i + b)\<bar> \<le> residual_slack s ys
                \<and> \<bar>s * mean_index ys + b - mean ys\<bar>
                    \<le> residual_slack s ys / real (length ys)"
    using centroid_rounded_error[OF ne] by blast
  from exact ols_centroid[OF assms] rounded show ?thesis by (intro conjI)
qed

theorem regression_centroid_rounded_witness:
  "2 \<le> length [1, 3 :: real]
   \<and> linearRegression_rounded dbl (map Fin [1, 3]) = \<lparr>slope = Fin 2, intercept = Fin 1\<rparr>
   \<and> \<bar>\<Sum>i = 0..<length [1, 3 :: real]. [1, 3] ! i - (2 * real i + 1)\<bar> \<le> residual_slack 2 [1, 3]
   \<and> \<bar>2 * mean_index [1, 3] + 1 - mean [1, 3]\<bar> \<le> residual_slack 2 [1, 3] / real (length [1, 3 :: real])
   \<and> linearRegression_rounded (\<lambda>v. v) (map Fin [1, 3])
       = \<lparr>slope = Fin (ols_slope [1, 3]), intercept = Fin (ols_intercept [1, 3])\<rparr>"
proof -
  have h: "2 \<le> length [1, 3 :: real]" by simp
  have fit: "linearRegression_rounded dbl (map Fin [1, 3]) = \<lparr>slope = Fin 2, intercept = Fin 1\<rparr>"
    by (simp add: fit_1_3)
  note t = regression_centroid_rounded[OF h]
  note exact = t[THEN conjunct1]
  note near = t[THEN conjunct2, THEN conjunct2, THEN conjunct2, THEN conjunct2, rule_format, OF fit]
  from h fit near[THEN conjunct1] near[THEN conjunct2] exact show ?thesis
    by (intro conjI)
qed

section \<open>The average in doubles\<close>





end
